theory Spec2Isabelle
  imports Main
begin

section \<open>The state-transition engine (core/src/app/client/state-manager.ts)\<close>

subsection \<open>Data model\<close>

text \<open>
  A \<open>Range\<close> is the half-open interval \<open>[start, end)\<close>. Its bounds are \<open>bn.js\<close> big
  numbers in the source, unbounded integers here. The field \<open>end\<close> of the source is
  written \<open>end'\<close>, since \<open>end\<close> is reserved.
\<close>

record Range =
  start :: int
  end' :: int

record StateObject =
  predicate :: string
  parameters :: string

text \<open>
  The field \<open>range\<close> of a StateUpdate and of a Transaction is written \<open>range_update\<close>
  and \<open>range_tx\<close> (\<open>range\<close> is a constant of HOL). Block numbers are JavaScript
  numbers in the source, that is IEEE 754 doubles; they count blocks, and are modelled as
  the integers that are doubles.
\<close>

record StateUpdate =
  range_update :: Range
  stateObject :: StateObject
  plasmaBlockNumber :: int

record VerifiedStateUpdate =
  stateUpdate :: StateUpdate
  verifiedBlockNumber :: int

record Transaction =
  range_tx :: Range
  body :: string

text \<open>
  A StateUpdate computed by a predicate plugin is a JavaScript object, and the engine
  compares two of them with \<open>!==\<close>, which compares object identity. So a computed state is
  a reference into an object store (the field \<open>heap\<close> below), and two references can hold
  equal contents.
\<close>

type_synonym ref = nat

text \<open>
  \<open>PredicatePlugin.executeStateTransition(stateUpdate, verifiedBlockNumber, transaction)\<close>:
  the reference of the computed state, \<open>None\<close> when the call throws or resolves to no
  object. A predicate is a function of its three arguments, and the object store does not
  change during a call of the engine, which writes nothing.
\<close>

type_synonym PredicatePlugin = "StateUpdate \<Rightarrow> int \<Rightarrow> Transaction \<Rightarrow> ref option"

text \<open>
  The source throws a plain \<open>Error\<close> with a message at each failure; the constructors name
  the failures as the specification does. \<open>StateDBError\<close>, \<open>UnknownPredicate\<close> and
  \<open>PredicateError\<close> are the awaited calls of the collaborators that reject.
\<close>

datatype Error =
    InvalidTransaction
  | StateDBError
  | InvalidVerifiedUpdate
  | RangeMismatch
  | UnknownPredicate
  | PredicateError
  | BlockNumberMismatch
  | InconsistentTransition

text \<open>The object \<open>result\<close> of the source; \<open>undefined\<close> is \<open>None\<close>.\<close>

record Result =
  stateUpdate_result :: "ref option"
  validRanges :: "Range list"

text \<open>
  What \<open>DefaultStateManager\<close> is constructed with and what it imports. The helpers
  \<open>isValidTransaction\<close> and \<open>isValidVerifiedStateUpdate\<close> (\<open>../common/utils\<close>) are
  not among the sources, so they are parameters, as are the state store
  (\<open>stateDB.getVerifiedStateUpdates\<close>), the plugin registry (\<open>pluginManager.getPlugin\<close>)
  and the object store the plugins' results live in.
\<close>

record StateManager =
  isValidTransaction :: "Transaction \<Rightarrow> bool"
  isValidVerifiedStateUpdate :: "VerifiedStateUpdate \<Rightarrow> bool"
  getVerifiedStateUpdates :: "int \<Rightarrow> int \<Rightarrow> VerifiedStateUpdate list option"
  getPlugin :: "string \<Rightarrow> PredicatePlugin option"
  heap :: "ref \<Rightarrow> StateUpdate"

subsection \<open>executeTransaction\<close>

text \<open>
  \<open>n + 1\<close> on JavaScript numbers, for an integral \<open>n\<close>: the expression
  \<open>verifiedUpdate.verifiedBlockNumber + 1\<close> of the source. For \<open>-2^53 \<le> n < 2^53\<close> the sum
  is a double and is exact. From there to \<open>2^54\<close> in absolute value the doubles are the even
  integers: \<open>n + 1\<close> lies half-way between \<open>n\<close> and \<open>n + 2\<close> and is rounded to the one
  of the two whose half is even (round to nearest, ties to even). Beyond, the doubles are
  at least 4 apart and the sum is rounded back to \<open>n\<close>.
\<close>

definition addOne :: "int \<Rightarrow> int" where
  "addOne n =
    (if - (2 ^ 53) \<le> n \<and> n < 2 ^ 53 then n + 1
     else if - (2 ^ 54) < n \<and> n < 2 ^ 54 then (if even (n div 2) then n else n + 2)
     else n)"

text \<open>
  The body of the loop over the verified updates, for one \<open>verifiedUpdate\<close>; the
  locals \<open>start\<close> and \<open>end\<close> of the source are \<open>txStart\<close> and \<open>txEnd\<close>. Beside the
  \<open>result\<close> it carries the list \<open>invoked\<close> of the verified updates whose predicate has
  been invoked so far (every call of \<open>executeStateTransition\<close>, in order), so that what
  happens before and after a call of a predicate can be told apart.
\<close>

definition processUpdate ::
  "StateManager \<Rightarrow> Transaction \<Rightarrow> Result \<Rightarrow> VerifiedStateUpdate list \<Rightarrow> VerifiedStateUpdate
    \<Rightarrow> (Error + Result) \<times> VerifiedStateUpdate list" where
  "processUpdate M transaction result invoked verifiedUpdate =
    (if \<not> isValidVerifiedStateUpdate M verifiedUpdate then (Inl InvalidVerifiedUpdate, invoked)
     else
       let txStart = start (range_tx transaction);
           txEnd = end' (range_tx transaction);
           verifiedStart = start (range_update (stateUpdate verifiedUpdate));
           verifiedEnd = end' (range_update (stateUpdate verifiedUpdate))
       in
       if verifiedEnd \<le> txStart \<or> verifiedStart \<ge> txEnd then (Inl RangeMismatch, invoked)
       else
         (case getPlugin M (predicate (stateObject (stateUpdate verifiedUpdate))) of
            None \<Rightarrow> (Inl UnknownPredicate, invoked)
          | Some predicatePlugin \<Rightarrow>
             (case predicatePlugin (stateUpdate verifiedUpdate)
                     (verifiedBlockNumber verifiedUpdate) transaction of
                None \<Rightarrow> (Inl PredicateError, invoked @ [verifiedUpdate])
              | Some computedState \<Rightarrow>
                 if plasmaBlockNumber (heap M computedState)
                      \<noteq> addOne (verifiedBlockNumber verifiedUpdate)
                 then (Inl BlockNumberMismatch, invoked @ [verifiedUpdate])
                 else
                   let ranges = validRanges result @
                         [\<lparr>start = max txStart verifiedStart, end' = min txEnd verifiedEnd\<rparr>]
                   in
                   (case stateUpdate_result result of
                      None \<Rightarrow>
                        (Inr \<lparr>stateUpdate_result = Some computedState, validRanges = ranges\<rparr>,
                         invoked @ [verifiedUpdate])
                    | Some previous \<Rightarrow>
                        if previous \<noteq> computedState
                        then (Inl InconsistentTransition, invoked @ [verifiedUpdate])
                        else (Inr \<lparr>stateUpdate_result = Some previous, validRanges = ranges\<rparr>,
                              invoked @ [verifiedUpdate])))))"

text \<open>The loop \<open>for (const verifiedUpdate of verifiedUpdates)\<close>: the first throw ends it.\<close>

fun processUpdates ::
  "StateManager \<Rightarrow> Transaction \<Rightarrow> VerifiedStateUpdate list \<Rightarrow> Result \<Rightarrow> VerifiedStateUpdate list
    \<Rightarrow> (Error + Result) \<times> VerifiedStateUpdate list" where
  "processUpdates M transaction [] result invoked = (Inr result, invoked)"
| "processUpdates M transaction (verifiedUpdate # verifiedUpdates) result invoked =
    (case processUpdate M transaction result invoked verifiedUpdate of
       (Inl err, invoked') \<Rightarrow> (Inl err, invoked')
     | (Inr result', invoked') \<Rightarrow> processUpdates M transaction verifiedUpdates result' invoked')"

definition executeTransaction ::
  "StateManager \<Rightarrow> Transaction \<Rightarrow> (Error + Result) \<times> VerifiedStateUpdate list" where
  "executeTransaction M transaction =
    (let result = \<lparr>stateUpdate_result = None, validRanges = []\<rparr> in
     if \<not> isValidTransaction M transaction then (Inl InvalidTransaction, [])
     else
       (case getVerifiedStateUpdates M (start (range_tx transaction)) (end' (range_tx transaction)) of
          None \<Rightarrow> (Inl StateDBError, [])
        | Some verifiedUpdates \<Rightarrow> processUpdates M transaction verifiedUpdates result []))"

section \<open>The execution bridge (rollup-full-node/src/app/handler.ts)\<close>

subsection \<open>Values and collaborators\<close>

text \<open>
  The values that travel through the JSON-RPC surface (\<open>any\<close> in the source).
\<close>

datatype Json =
    Undefined
  | Null
  | Str string
  | Num int
  | Obj "(string \<times> Json) list"
  | Arr "Json list"

text \<open>
  \<open>utils.parseTransaction(rawOvmTx)\<close> gives the decoded rollup transaction; the props the
  handler reads are \<open>to\<close> (\<open>null\<close> for a contract creation), \<open>data\<close> and \<open>gasLimit\<close>. The
  object \<open>internalTx\<close> is what \<open>ovmTxToInternalTx\<close> hands to \<open>wallet.sign\<close>. Field names
  carry a suffix where the source's name is reserved.
\<close>

record OvmTx =
  to_ovm :: "string option"
  data_ovm :: string
  gasLimit_ovm :: int

record InternalTx =
  nonce :: int
  gasPrice :: int
  gasLimit :: int
  to_internal :: string
  value_internal :: int
  data_internal :: string

text \<open>The result of \<open>convertInternalLogsToOvmLogs\<close> (package \<open>@pigi/ovm\<close>).\<close>

record OvmLogs =
  ovmLogs :: Json
  ovmEntrypoint_logs :: Json
  ovmCreatedContractAddress :: Json

text \<open>
  The members of the enumeration \<open>Web3RpcMethods\<close> (\<open>../types\<close>, not among the sources);
  their string values are a parameter of the handler.
\<close>

datatype RpcMethod =
    BlockNumber
  | Call
  | EstimateGas
  | GasPrice
  | GetCode
  | GetExecutionManagerAddress
  | GetTransactionCount
  | GetTransactionReceipt
  | SendRawTransaction
  | NetworkVersion

text \<open>
  Every awaited call on a collaborator is recorded, with its outcome, in a history:
  \<open>provider.send(method, params)\<close>, the three calls on the execution manager contract,
  \<open>wallet.getTransactionCount()\<close> and \<open>wallet.sign(internalTx)\<close>. An outcome \<open>None\<close>
  (\<open>False\<close> for the mapping write, which returns nothing) is a call that rejects.
\<close>

datatype Event =
    Sent string Json "Json option"
  | CodeContractAddress Json "Json option"
  | MappedHash string string bool
  | InternalHash string "Json option"
  | TransactionCount "int option"
  | Signed InternalTx "string option"

type_synonym History = "Event list"

datatype RpcError =
    InvalidParametersError
  | UnsupportedMethodError
  | UnsupportedBlockTag
  | TypeError
  | ParseError
  | SigningError
  | MappingPersistError
  | UnderlyingLedgerError
  | SandboxError
  | LogConversionError
  | HashMismatch

text \<open>
  What the handler is constructed with and what it imports. The collaborators answer as a
  function of the history so far. \<open>remove0x\<close>, \<open>add0x\<close> and \<open>ZERO_ADDRESS\<close>
  (\<open>@pigi/core-utils\<close>), \<open>methodID\<close> (\<open>ethereumjs-abi\<close>, for a method without arguments,
  as hexadecimal digits), \<open>keccak256\<close> and \<open>parseTransaction\<close> (\<open>ethers\<close>) are not among
  the sources and are parameters; \<open>address\<close> is \<open>executionManager.address\<close>. Both
  \<open>keccak256\<close> and \<open>parseTransaction\<close> read their argument as bytes, through the
  \<open>arrayify\<close> of \<open>ethers\<close>: \<open>arrayify\<close> gives, for a value that is not a string (an
  array of bytes), the hexadecimal string of its bytes, and \<open>None\<close> for a value that is
  rejected.
\<close>

record Handler =
  providerSend :: "History \<Rightarrow> string \<Rightarrow> Json \<Rightarrow> Json option"
  getCodeContractAddress :: "History \<Rightarrow> Json \<Rightarrow> Json option"
  mapOvmTransactionHashToInternalTransactionHash :: "History \<Rightarrow> string \<Rightarrow> string \<Rightarrow> bool"
  getInternalTransactionHash :: "History \<Rightarrow> string \<Rightarrow> Json option"
  walletGetTransactionCount :: "History \<Rightarrow> int option"
  walletSign :: "History \<Rightarrow> InternalTx \<Rightarrow> string option"
  address :: string
  Web3RpcMethods :: "RpcMethod \<Rightarrow> string"
  ZERO_ADDRESS :: string
  remove0x :: "string \<Rightarrow> string"
  add0x :: "string \<Rightarrow> string"
  methodID :: "string \<Rightarrow> string"
  keccak256 :: "string \<Rightarrow> string"
  parseTransaction :: "string \<Rightarrow> OvmTx option"
  arrayify :: "Json \<Rightarrow> string option"
  convertInternalLogsToOvmLogs :: "Json \<Rightarrow> OvmLogs option"

subsection \<open>JavaScript property access\<close>

text \<open>
  \<open>object[key]\<close>: a missing property reads as \<open>undefined\<close>; reading a property of
  \<open>undefined\<close> or \<open>null\<close> throws (\<open>None\<close>). \<open>object[key] = v\<close> replaces the property or
  appends it; the handler only assigns to the receipt object.
\<close>

fun property :: "Json \<Rightarrow> string \<Rightarrow> Json option" where
  "property (Obj props) key = (case map_of props key of None \<Rightarrow> Some Undefined | Some v \<Rightarrow> Some v)"
| "property Undefined key = None"
| "property Null key = None"
| "property other key = Some Undefined"

fun assignField :: "(string \<times> Json) list \<Rightarrow> string \<Rightarrow> Json \<Rightarrow> (string \<times> Json) list" where
  "assignField [] key v = [(key, v)]"
| "assignField ((k, w) # props) key v =
    (if k = key then (k, v) # props else (k, w) # assignField props key v)"

fun assign :: "Json \<Rightarrow> string \<Rightarrow> Json \<Rightarrow> Json option" where
  "assign (Obj props) key v = Some (Obj (assignField props key v))"
| "assign other key v = None"

text \<open>\<open>args[i]\<close>: \<open>undefined\<close> past the end of the array.\<close>

definition at :: "Json list \<Rightarrow> nat \<Rightarrow> Json" where
  "at args i = (if i < length args then args ! i else Undefined)"

subsection \<open>The calldata of the execution manager\<close>

text \<open>
  \<open>getExecutionMgrTxData(ovmEntrypoint, ovmCalldata)\<close>. \<open>'00'.repeat(n)\<close> is
  \<open>concat (replicate n ''00'')\<close>; the template string is a concatenation.
\<close>

definition getExecutionMgrTxData :: "Handler \<Rightarrow> string \<Rightarrow> string \<Rightarrow> string" where
  "getExecutionMgrTxData H ovmEntrypoint ovmCalldata =
    (let methodId = methodID H ''executeCall'';
         timestamp = concat (replicate 32 ''00'');
         origin = concat (replicate 32 ''00'');
         encodedEntrypoint = concat (replicate 12 ''00'') @ remove0x H ovmEntrypoint;
         txBody = ''0x'' @ methodId @ timestamp @ origin @ encodedEntrypoint
                    @ remove0x H ovmCalldata
     in txBody)"

subsection \<open>The methods\<close>

text \<open>
  Each method takes the history and returns its result, or the error it throws, with the
  history extended by the calls it made. \<open>log.debug\<close> and \<open>log.error\<close> are left out.
  \<open>send\<close> is \<open>await this.provider.send(method, params)\<close>.
\<close>

definition send ::
  "Handler \<Rightarrow> History \<Rightarrow> string \<Rightarrow> Json \<Rightarrow> (RpcError + Json) \<times> History" where
  "send H w m params =
    (let response = providerSend H w m params in
     (case response of None \<Rightarrow> Inl UnderlyingLedgerError | Some r \<Rightarrow> Inr r,
      w @ [Sent m params response]))"

definition blockNumber :: "Handler \<Rightarrow> History \<Rightarrow> (RpcError + Json) \<times> History" where
  "blockNumber H w = send H w (Web3RpcMethods H BlockNumber) (Arr [])"

text \<open>
  \<open>call\<close> and \<open>estimateGas\<close>: \<open>txObject['to']\<close> and \<open>txObject['data']\<close> go through
  \<open>remove0x\<close>, a string function, so a \<open>txObject\<close> without properties or a property that
  is not a string throws before anything is sent. \<open>internalCall\<close> is the object
  \<open>{from: ZERO_ADDRESS, to: this.executionManager.address, data: internalCalldata}\<close> that
  both send.
\<close>

definition internalCall :: "Handler \<Rightarrow> string \<Rightarrow> Json" where
  "internalCall H internalCalldata =
    Obj [(''from'', Str (ZERO_ADDRESS H)), (''to'', Str (address H)),
         (''data'', Str internalCalldata)]"

definition call :: "Handler \<Rightarrow> History \<Rightarrow> Json \<Rightarrow> Json \<Rightarrow> (RpcError + Json) \<times> History" where
  "call H w txObject defaultBlock =
    (case (property txObject ''to'', property txObject ''data'') of
       (Some (Str entrypoint), Some (Str calldata)) \<Rightarrow>
         (let internalCalldata = getExecutionMgrTxData H entrypoint calldata in
          send H w (Web3RpcMethods H Call) (Arr [internalCall H internalCalldata, defaultBlock]))
     | _ \<Rightarrow> (Inl TypeError, w))"

definition estimateGas :: "Handler \<Rightarrow> History \<Rightarrow> Json \<Rightarrow> Json \<Rightarrow> (RpcError + Json) \<times> History" where
  "estimateGas H w txObject defaultBlock =
    (case (property txObject ''to'', property txObject ''data'') of
       (Some (Str entrypoint), Some (Str calldata)) \<Rightarrow>
         (let internalCalldata = getExecutionMgrTxData H entrypoint calldata in
          send H w (Web3RpcMethods H EstimateGas) (Arr [internalCall H internalCalldata]))
     | _ \<Rightarrow> (Inl TypeError, w))"

definition gasPrice :: "Handler \<Rightarrow> History \<Rightarrow> (RpcError + Json) \<times> History" where
  "gasPrice H w = (Inr (Str ''0x0''), w)"

definition getCode :: "Handler \<Rightarrow> History \<Rightarrow> Json \<Rightarrow> Json \<Rightarrow> (RpcError + Json) \<times> History" where
  "getCode H w addr defaultBlock =
    (if defaultBlock \<noteq> Str ''latest'' then (Inl UnsupportedBlockTag, w)
     else
       let codeContractAddress = getCodeContractAddress H w addr;
           w1 = w @ [CodeContractAddress addr codeContractAddress]
       in (case codeContractAddress of
             None \<Rightarrow> (Inl SandboxError, w1)
           | Some a \<Rightarrow> send H w1 (Web3RpcMethods H GetCode) (Arr [a, Str ''latest''])))"

definition getExecutionManagerAddress :: "Handler \<Rightarrow> History \<Rightarrow> (RpcError + Json) \<times> History" where
  "getExecutionManagerAddress H w = (Inr (Str (address H)), w)"

definition getTransactionCount ::
  "Handler \<Rightarrow> History \<Rightarrow> Json \<Rightarrow> Json \<Rightarrow> (RpcError + Json) \<times> History" where
  "getTransactionCount H w addr defaultBlock =
     send H w (Web3RpcMethods H GetTransactionCount) (Arr [addr, defaultBlock])"

definition networkVersion :: "Handler \<Rightarrow> History \<Rightarrow> (RpcError + Json) \<times> History" where
  "networkVersion H w = send H w (Web3RpcMethods H NetworkVersion) (Arr [])"

definition getInternalTxHash :: "Handler \<Rightarrow> History \<Rightarrow> string \<Rightarrow> (RpcError + Json) \<times> History" where
  "getInternalTxHash H w ovmTxHash =
    (let internalTxHash = getInternalTransactionHash H w (add0x H ovmTxHash) in
     (case internalTxHash of None \<Rightarrow> Inl SandboxError | Some h \<Rightarrow> Inr h,
      w @ [InternalHash (add0x H ovmTxHash) internalTxHash]))"

definition internalTxReceiptToOvmTxReceipt :: "Handler \<Rightarrow> Json \<Rightarrow> RpcError + Json" where
  "internalTxReceiptToOvmTxReceipt H internalTxReceipt =
    (case property internalTxReceipt ''logs'' of
       None \<Rightarrow> Inl TypeError
     | Some logs \<Rightarrow>
        (case convertInternalLogsToOvmLogs H logs of
           None \<Rightarrow> Inl LogConversionError
         | Some convertedOvmLogs \<Rightarrow>
            (case assign internalTxReceipt ''logs'' (ovmLogs convertedOvmLogs) of
               None \<Rightarrow> Inl TypeError
             | Some r1 \<Rightarrow>
            (case assign r1 ''to'' (ovmEntrypoint_logs convertedOvmLogs) of
               None \<Rightarrow> Inl TypeError
             | Some r2 \<Rightarrow>
            (case assign r2 ''from'' (Str (ZERO_ADDRESS H)) of
               None \<Rightarrow> Inl TypeError
             | Some r3 \<Rightarrow>
            (case assign r3 ''contractAddress'' (ovmCreatedContractAddress convertedOvmLogs) of
               None \<Rightarrow> Inl TypeError
             | Some ovmTxReceipt \<Rightarrow> Inr ovmTxReceipt))))))"

definition getTransactionReceipt ::
  "Handler \<Rightarrow> History \<Rightarrow> string \<Rightarrow> (RpcError + Json) \<times> History" where
  "getTransactionReceipt H w ovmTxHash =
    (case getInternalTxHash H w ovmTxHash of
       (Inl err, w1) \<Rightarrow> (Inl err, w1)
     | (Inr internalTxHash, w1) \<Rightarrow>
        (case send H w1 (Web3RpcMethods H GetTransactionReceipt) (Arr [internalTxHash]) of
           (Inl err, w2) \<Rightarrow> (Inl err, w2)
         | (Inr internalTxReceipt, w2) \<Rightarrow> (internalTxReceiptToOvmTxReceipt H internalTxReceipt, w2)))"

definition mapOvmTxHashToInternalTxHash ::
  "Handler \<Rightarrow> History \<Rightarrow> string \<Rightarrow> string \<Rightarrow> (RpcError + unit) \<times> History" where
  "mapOvmTxHashToInternalTxHash H w ovmTxHash internalTxHash =
    (let stored = mapOvmTransactionHashToInternalTransactionHash H w
                    (add0x H ovmTxHash) (add0x H internalTxHash)
     in (if stored then Inr () else Inl MappingPersistError,
         w @ [MappedHash (add0x H ovmTxHash) (add0x H internalTxHash) stored]))"

definition ovmTxToInternalTx ::
  "Handler \<Rightarrow> History \<Rightarrow> string \<Rightarrow> (RpcError + string) \<times> History" where
  "ovmTxToInternalTx H w rawOvmTx =
    (case parseTransaction H rawOvmTx of
       None \<Rightarrow> (Inl ParseError, w)
     | Some ovmTx \<Rightarrow>
        let count = walletGetTransactionCount H w;
            w1 = w @ [TransactionCount count]
        in (case count of
              None \<Rightarrow> (Inl UnderlyingLedgerError, w1)
            | Some n \<Rightarrow>
               let nonce = n + 1;
                   ovmEntrypoint = (case to_ovm ovmTx of None \<Rightarrow> ZERO_ADDRESS H | Some a \<Rightarrow> a);
                   internalCalldata = getExecutionMgrTxData H ovmEntrypoint (data_ovm ovmTx);
                   internalTx = \<lparr>nonce = nonce, gasPrice = 0, gasLimit = gasLimit_ovm ovmTx,
                                 to_internal = address H, value_internal = 0,
                                 data_internal = internalCalldata\<rparr>;
                   signed = walletSign H w1 internalTx;
                   w2 = w1 @ [Signed internalTx signed]
               in (case signed of None \<Rightarrow> (Inl SigningError, w2) | Some s \<Rightarrow> (Inr s, w2))))"

text \<open>
  \<open>sendRawTransaction\<close>. The internal transaction is passed to \<open>provider.send\<close> as it is
  (a string, not an array of parameters). A returned hash that is not a string makes
  \<open>remove0x\<close> throw.
\<close>

definition sendRawTransaction ::
  "Handler \<Rightarrow> History \<Rightarrow> string \<Rightarrow> (RpcError + Json) \<times> History" where
  "sendRawTransaction H w rawOvmTx =
    (case ovmTxToInternalTx H w rawOvmTx of
       (Inl err, w1) \<Rightarrow> (Inl err, w1)
     | (Inr internalTx, w1) \<Rightarrow>
        let ovmTxHash = keccak256 H rawOvmTx;
            internalTxHash = keccak256 H internalTx
        in (case mapOvmTxHashToInternalTxHash H w1 ovmTxHash internalTxHash of
              (Inl err, w2) \<Rightarrow> (Inl err, w2)
            | (Inr u, w2) \<Rightarrow>
               (case send H w2 (Web3RpcMethods H SendRawTransaction) (Str internalTx) of
                  (Inl err, w3) \<Rightarrow> (Inl err, w3)
                | (Inr (Str returnedInternalTxHash), w3) \<Rightarrow>
                    if remove0x H internalTxHash \<noteq> remove0x H returnedInternalTxHash
                    then (Inl HashMismatch, w3)
                    else (Inr (Str ovmTxHash), w3)
                | (Inr other, w3) \<Rightarrow> (Inl TypeError, w3))))"

subsection \<open>Dispatch\<close>

text \<open>
  \<open>assertParameters(params, expected, defaultLast)\<close>: \<open>params\<close> is \<open>None\<close> when it is
  \<open>undefined\<close> or \<open>null\<close>; a \<open>defaultLast\<close> that is not passed is \<open>Undefined\<close>. The
  comparison \<open>params.length === expected - 1\<close> is over the integers.
\<close>

definition assertParameters :: "Json list option \<Rightarrow> nat \<Rightarrow> Json \<Rightarrow> RpcError + Json list" where
  "assertParameters params expected defaultLast =
    (case params of
       None \<Rightarrow> if expected = 0 then Inr [] else Inl InvalidParametersError
     | Some ps \<Rightarrow>
         if int (length ps) = int expected - 1 \<or> length ps = expected
         then Inr (if length ps = expected then ps else ps @ [defaultLast])
         else Inl InvalidParametersError)"

text \<open>
  The \<open>switch (method)\<close>: the first \<open>case\<close> label, in the order of the source, whose string
  equals \<open>method\<close>; \<open>None\<close> is the \<open>default\<close> branch.
\<close>

definition switchCase :: "Handler \<Rightarrow> string \<Rightarrow> RpcMethod option" where
  "switchCase H m =
    find (\<lambda>label. m = Web3RpcMethods H label)
      [BlockNumber, Call, EstimateGas, GasPrice, GetCode, GetExecutionManagerAddress,
       GetTransactionCount, GetTransactionReceipt, SendRawTransaction, NetworkVersion]"

definition latestBlock :: Json where
  "latestBlock = Str ''latest''"

text \<open>
  \<open>handleRequest(method, params)\<close>. The methods typed \<open>string\<close> in the source
  (\<open>getTransactionReceipt\<close>, \<open>sendRawTransaction\<close>) get \<open>args[0]\<close> as it is. In
  \<open>getTransactionReceipt\<close> a value that is not a string makes \<open>add0x\<close>, a string
  function, throw before any collaborator is called. In \<open>sendRawTransaction\<close> the value
  only goes to \<open>utils.parseTransaction\<close> and \<open>utils.keccak256\<close>, which read it as bytes:
  an array of bytes is processed as the hexadecimal string of the same bytes is, and a
  value that \<open>arrayify\<close> rejects makes \<open>utils.parseTransaction\<close> throw before any
  collaborator is called.
\<close>

definition handleRequest ::
  "Handler \<Rightarrow> History \<Rightarrow> string \<Rightarrow> Json list option \<Rightarrow> (RpcError + Json) \<times> History" where
  "handleRequest H w m params =
    (case switchCase H m of
       Some BlockNumber \<Rightarrow>
         (case assertParameters params 0 Undefined of
            Inl err \<Rightarrow> (Inl err, w) | Inr args \<Rightarrow> blockNumber H w)
     | Some Call \<Rightarrow>
         (case assertParameters params 2 latestBlock of
            Inl err \<Rightarrow> (Inl err, w) | Inr args \<Rightarrow> call H w (at args 0) (at args 1))
     | Some EstimateGas \<Rightarrow>
         (case assertParameters params 2 latestBlock of
            Inl err \<Rightarrow> (Inl err, w) | Inr args \<Rightarrow> estimateGas H w (at args 0) (at args 1))
     | Some GasPrice \<Rightarrow>
         (case assertParameters params 0 Undefined of
            Inl err \<Rightarrow> (Inl err, w) | Inr args \<Rightarrow> gasPrice H w)
     | Some GetCode \<Rightarrow>
         (case assertParameters params 2 latestBlock of
            Inl err \<Rightarrow> (Inl err, w) | Inr args \<Rightarrow> getCode H w (at args 0) (at args 1))
     | Some GetExecutionManagerAddress \<Rightarrow>
         (case assertParameters params 0 Undefined of
            Inl err \<Rightarrow> (Inl err, w) | Inr args \<Rightarrow> getExecutionManagerAddress H w)
     | Some GetTransactionCount \<Rightarrow>
         (case assertParameters params 2 latestBlock of
            Inl err \<Rightarrow> (Inl err, w) | Inr args \<Rightarrow> getTransactionCount H w (at args 0) (at args 1))
     | Some GetTransactionReceipt \<Rightarrow>
         (case assertParameters params 1 Undefined of
            Inl err \<Rightarrow> (Inl err, w)
          | Inr args \<Rightarrow>
             (case at args 0 of
                Str ovmTxHash \<Rightarrow> getTransactionReceipt H w ovmTxHash
              | other \<Rightarrow> (Inl TypeError, w)))
     | Some SendRawTransaction \<Rightarrow>
         (case assertParameters params 1 Undefined of
            Inl err \<Rightarrow> (Inl err, w)
          | Inr args \<Rightarrow>
             (case at args 0 of
                Str rawOvmTx \<Rightarrow> sendRawTransaction H w rawOvmTx
              | other \<Rightarrow>
                 (case arrayify H other of
                    Some rawOvmTx \<Rightarrow> sendRawTransaction H w rawOvmTx
                  | None \<Rightarrow> (Inl ParseError, w))))
     | Some NetworkVersion \<Rightarrow>
         (case assertParameters params 0 Undefined of
            Inl err \<Rightarrow> (Inl err, w) | Inr args \<Rightarrow> networkVersion H w)
     | None \<Rightarrow> (Inl UnsupportedMethodError, w))"

section \<open>Notions used to state the properties\<close>

subsection \<open>Ranges and candidates\<close>

text \<open>
  The test of the source for a verified update that lies outside the range of the
  transaction, the sub-range it pushes on \<open>validRanges\<close>, and the computed state the
  registered predicate gives for a verified update (\<open>None\<close> when no predicate is
  registered or the predicate throws).
\<close>

definition outsideRange :: "Transaction \<Rightarrow> VerifiedStateUpdate \<Rightarrow> bool" where
  "outsideRange transaction verifiedUpdate =
    (end' (range_update (stateUpdate verifiedUpdate)) \<le> start (range_tx transaction)
     \<or> start (range_update (stateUpdate verifiedUpdate)) \<ge> end' (range_tx transaction))"

definition intersection :: "Transaction \<Rightarrow> VerifiedStateUpdate \<Rightarrow> Range" where
  "intersection transaction verifiedUpdate =
    \<lparr>start = max (start (range_tx transaction)) (start (range_update (stateUpdate verifiedUpdate))),
     end' = min (end' (range_tx transaction)) (end' (range_update (stateUpdate verifiedUpdate)))\<rparr>"

definition candidate :: "StateManager \<Rightarrow> Transaction \<Rightarrow> VerifiedStateUpdate \<Rightarrow> ref option" where
  "candidate M transaction verifiedUpdate =
    (case getPlugin M (predicate (stateObject (stateUpdate verifiedUpdate))) of
       None \<Rightarrow> None
     | Some predicatePlugin \<Rightarrow>
         predicatePlugin (stateUpdate verifiedUpdate) (verifiedBlockNumber verifiedUpdate)
           transaction)"

text \<open>
  Two half-open ranges overlap when they have a point in common; a list of ranges is
  pairwise disjoint when no two of its entries overlap.
\<close>

definition overlap :: "Range \<Rightarrow> Range \<Rightarrow> bool" where
  "overlap r q = (max (start r) (start q) < min (end' r) (end' q))"

fun pairwiseDisjoint :: "Range list \<Rightarrow> bool" where
  "pairwiseDisjoint [] = True"
| "pairwiseDisjoint (r # rs) = (list_all (\<lambda>q. \<not> overlap r q) rs \<and> pairwiseDisjoint rs)"

subsection \<open>The layout of the packed calldata\<close>

text \<open>\<open>zeros n\<close> is \<open>n\<close> zero bytes in hexadecimal digits.\<close>

definition zeros :: "nat \<Rightarrow> string" where
  "zeros n = replicate (2 * n) CHR ''0''"

text \<open>
  Modelled from the spec: the decoder of the packed calldata is the execution manager
  contract, which is not among the sources. The specification fixes the layout
  \<open>methodSelector("executeCall") || 32-byte timestamp || 32-byte queueOrigin || 32-byte
  zero-padded rollup target address || original calldata\<close>, and decoding gives back the fields
  (entrypoint, timestamp, queueOrigin, calldata). In hexadecimal digits after \<open>0x\<close>: a
  selector of 8 digits, two fields of 64 digits, 24 zero digits and the 40 digits of the
  address, then the calldata.
\<close>

definition decodeExecuteCall ::
  "Handler \<Rightarrow> string \<Rightarrow> (string \<times> string \<times> string \<times> string) option" where
  "decodeExecuteCall H packed =
    (if 202 \<le> length packed \<and> take 2 packed = ''0x''
        \<and> take 8 (drop 2 packed) = methodID H ''executeCall''
        \<and> take 24 (drop 138 packed) = zeros 12
     then Some (take 40 (drop 162 packed), take 64 (drop 10 packed), take 64 (drop 74 packed),
                drop 202 packed)
     else None)"

text \<open>
  The timestamp and queue-origin fields of a packed calldata, by their offsets after
  \<open>0x\<close> and the selector; a calldata has a zero context when both are zero.
\<close>

definition timestampField :: "Handler \<Rightarrow> string \<Rightarrow> string" where
  "timestampField H packed = take 64 (drop (2 + length (methodID H ''executeCall'')) packed)"

definition queueOriginField :: "Handler \<Rightarrow> string \<Rightarrow> string" where
  "queueOriginField H packed =
     take 64 (drop (2 + length (methodID H ''executeCall'') + 64) packed)"

definition zeroContext :: "Handler \<Rightarrow> string \<Rightarrow> bool" where
  "zeroContext H packed =
     (timestampField H packed = zeros 32 \<and> queueOriginField H packed = zeros 32)"

subsection \<open>Reading the history\<close>

text \<open>
  The calldata an event forwards to the execution manager: the \<open>data\<close> of the call object
  of a \<open>provider.send\<close>, and the \<open>data\<close> of an internal transaction given to the wallet
  to sign.
\<close>

fun forwardedCalldata :: "Event \<Rightarrow> string option" where
  "forwardedCalldata (Sent m (Arr (Obj props # rest)) r) =
     (case map_of props ''data'' of Some (Str d) \<Rightarrow> Some d | _ \<Rightarrow> None)"
| "forwardedCalldata (Signed internalTx s) = Some (data_internal internalTx)"
| "forwardedCalldata ev = None"

text \<open>The transactions submitted to the underlying ledger, in order.\<close>

fun submissions :: "Handler \<Rightarrow> History \<Rightarrow> Json list" where
  "submissions H [] = []"
| "submissions H (Sent m p r # w) =
     (if m = Web3RpcMethods H SendRawTransaction then p # submissions H w else submissions H w)"
| "submissions H (ev # w) = submissions H w"

text \<open>
  The content of the hash-mapping table of the execution manager: the pairs
  (ovmTxHash, internalTxHash) of the mapping writes that succeeded, in order. Nothing in
  the handler removes or flags a pair.
\<close>

fun persistedMappings :: "History \<Rightarrow> (string \<times> string) list" where
  "persistedMappings [] = []"
| "persistedMappings (MappedHash ovmTxHash internalTxHash stored # w) =
     (if stored then (ovmTxHash, internalTxHash) # persistedMappings w else persistedMappings w)"
| "persistedMappings (ev # w) = persistedMappings w"


section \<open>Example collaborators\<close>

text \<open>
  Concrete state stores, predicates and ledgers on which the theorems below are
  instantiated. Every verified update and every computed state of the examples is
  governed by one predicate, \<open>ownership\<close>.
\<close>

definition exampleUpdate :: "int \<Rightarrow> int \<Rightarrow> int \<Rightarrow> StateUpdate" where
  "exampleUpdate s e b =
    \<lparr>range_update = \<lparr>start = s, end' = e\<rparr>,
     stateObject = \<lparr>predicate = ''ownership'', parameters = []\<rparr>,
     plasmaBlockNumber = b\<rparr>"

definition exampleVerified :: "int \<Rightarrow> int \<Rightarrow> int \<Rightarrow> VerifiedStateUpdate" where
  "exampleVerified s e b = \<lparr>stateUpdate = exampleUpdate s e b, verifiedBlockNumber = b\<rparr>"

definition exampleTransaction :: "int \<Rightarrow> int \<Rightarrow> Transaction" where
  "exampleTransaction s e = \<lparr>range_tx = \<lparr>start = s, end' = e\<rparr>, body = []\<rparr>"

text \<open>
  \<open>samePlugin\<close> returns the object 1 at every call; \<open>freshPlugin\<close> returns a different
  object for updates that start at different points.
\<close>

definition samePlugin :: PredicatePlugin where
  "samePlugin su b tx = Some 1"

definition freshPlugin :: PredicatePlugin where
  "freshPlugin su b tx = Some (nat (start (range_update su)) + 1)"

text \<open>
  A state manager whose store answers every query with \<open>vus\<close>, whose registry knows the
  predicate \<open>ownership\<close> as \<open>plugin\<close>, whose helpers accept a transaction or an update
  when its range has \<open>start < end\<close>, and in whose object store every object is the same
  state over \<open>[0, 50)\<close> at block \<open>b\<close>.
\<close>

definition exampleManager ::
  "VerifiedStateUpdate list \<Rightarrow> PredicatePlugin \<Rightarrow> int \<Rightarrow> StateManager" where
  "exampleManager vus plugin b =
    \<lparr>isValidTransaction = (\<lambda>t. start (range_tx t) < end' (range_tx t)),
     isValidVerifiedStateUpdate =
       (\<lambda>v. start (range_update (stateUpdate v)) < end' (range_update (stateUpdate v))),
     getVerifiedStateUpdates = (\<lambda>s e. Some vus),
     getPlugin = (\<lambda>p. if p = ''ownership'' then Some plugin else None),
     heap = (\<lambda>r. exampleUpdate 0 50 b)\<rparr>"

text \<open>
  The string values of \<open>Web3RpcMethods\<close> as the specification lists them, and helpers
  that strip and add the prefix \<open>0x\<close>.
\<close>

definition exampleNames :: "RpcMethod \<Rightarrow> string" where
  "exampleNames label =
    (case label of
       BlockNumber \<Rightarrow> ''eth_blockNumber''
     | Call \<Rightarrow> ''eth_call''
     | EstimateGas \<Rightarrow> ''eth_estimateGas''
     | GasPrice \<Rightarrow> ''eth_gasPrice''
     | GetCode \<Rightarrow> ''eth_getCode''
     | GetExecutionManagerAddress \<Rightarrow> ''ovm_getExecutionManagerAddress''
     | GetTransactionCount \<Rightarrow> ''eth_getTransactionCount''
     | GetTransactionReceipt \<Rightarrow> ''eth_getTransactionReceipt''
     | SendRawTransaction \<Rightarrow> ''eth_sendRawTransaction''
     | NetworkVersion \<Rightarrow> ''net_version'')"

definition strip0x :: "string \<Rightarrow> string" where
  "strip0x s = (if take 2 s = ''0x'' then drop 2 s else s)"

definition prepend0x :: "string \<Rightarrow> string" where
  "prepend0x s = (if take 2 s = ''0x'' then s else ''0x'' @ s)"

definition exampleAddress :: string where
  "exampleAddress = ''0x'' @ replicate 40 CHR ''a''"

text \<open>
  A handler over a ledger that answers \<open>eth_sendRawTransaction\<close> with \<open>returnedHash\<close>
  and whose mapping write succeeds when \<open>stored\<close> holds. The selector, the signature and
  the hash are stand-ins: the signed transaction is \<open>f9\<close> followed by the calldata, and
  the hash of a string is \<open>0x\<close> followed by its first eight characters; every array is
  read as the bytes \<open>f86b\<close>.
\<close>

definition exampleHandler :: "string \<Rightarrow> bool \<Rightarrow> Handler" where
  "exampleHandler returnedHash stored =
    \<lparr>providerSend = (\<lambda>w m p. if m = ''eth_sendRawTransaction'' then Some (Str returnedHash)
                              else Some (Str ''0x0'')),
     getCodeContractAddress = (\<lambda>w a. Some a),
     mapOvmTransactionHashToInternalTransactionHash = (\<lambda>w ovmTxHash internalTxHash. stored),
     getInternalTransactionHash = (\<lambda>w h. Some (Str h)),
     walletGetTransactionCount = (\<lambda>w. Some 0),
     walletSign = (\<lambda>w internalTx. Some (''f9'' @ drop 2 (data_internal internalTx))),
     address = ''0x'' @ replicate 40 CHR ''e'',
     Web3RpcMethods = exampleNames,
     ZERO_ADDRESS = ''0x'' @ replicate 40 CHR ''0'',
     remove0x = strip0x,
     add0x = prepend0x,
     methodID = (\<lambda>name. ''1f2e3d4c''),
     keccak256 = (\<lambda>s. ''0x'' @ take 8 s),
     parseTransaction = (\<lambda>raw. Some \<lparr>to_ovm = Some exampleAddress, data_ovm = ''0x'',
                                         gasLimit_ovm = 21000\<rparr>),
     arrayify = (\<lambda>v. case v of Arr bytes \<Rightarrow> Some ''0xf86b'' | _ \<Rightarrow> None),
     convertInternalLogsToOvmLogs =
       (\<lambda>logs. Some \<lparr>ovmLogs = logs, ovmEntrypoint_logs = Str exampleAddress,
                        ovmCreatedContractAddress = Null\<rparr>)\<rparr>"

text \<open>The timestamp \<open>'00'.repeat(30) + '1111'\<close> of the tests of the execution manager.\<close>

definition exampleTimestamp :: string where
  "exampleTimestamp = replicate 60 CHR ''0'' @ ''1111''"

section \<open>Properties of the state-transition engine\<close>

subsection \<open>The loop\<close>

text \<open>One step of the loop, as a chain of the checks in their order.\<close>

lemma processUpdate_cases:
  "processUpdate M t r lg vu =
    (if \<not> isValidVerifiedStateUpdate M vu then (Inl InvalidVerifiedUpdate, lg)
     else if outsideRange t vu then (Inl RangeMismatch, lg)
     else if getPlugin M (predicate (stateObject (stateUpdate vu))) = None
       then (Inl UnknownPredicate, lg)
     else case candidate M t vu of
        None \<Rightarrow> (Inl PredicateError, lg @ [vu])
      | Some c \<Rightarrow>
          if plasmaBlockNumber (heap M c) \<noteq> addOne (verifiedBlockNumber vu)
            then (Inl BlockNumberMismatch, lg @ [vu])
          else if stateUpdate_result r \<noteq> None \<and> stateUpdate_result r \<noteq> Some c
            then (Inl InconsistentTransition, lg @ [vu])
          else (Inr \<lparr>stateUpdate_result = Some c,
                      validRanges = validRanges r @ [intersection t vu]\<rparr>, lg @ [vu]))"
  by (auto simp: processUpdate_def outsideRange_def intersection_def candidate_def Let_def
           split: option.splits)

lemma processUpdates_append:
  "processUpdates M t (xs @ ys) r lg =
    (case processUpdates M t xs r lg of
       (Inl e, lg') \<Rightarrow> (Inl e, lg')
     | (Inr r', lg') \<Rightarrow> processUpdates M t ys r' lg')"
  by (induction xs arbitrary: r lg) (auto split: prod.splits sum.splits)

text \<open>A failing loop fails at its first failing step, after a prefix that succeeded.\<close>

lemma processUpdates_error:
  "fst (processUpdates M t vus r lg) = Inl e \<Longrightarrow>
    \<exists>pre vu post r' lg'. vus = pre @ vu # post
      \<and> processUpdates M t pre r lg = (Inr r', lg')
      \<and> fst (processUpdate M t r' lg' vu) = Inl e
      \<and> processUpdates M t vus r lg = processUpdate M t r' lg' vu"
proof (induction vus arbitrary: r lg)
  case Nil
  then show ?case by simp
next
  case (Cons a vus)
  show ?case
  proof (cases "processUpdate M t r lg a")
    case (Pair o1 lg1)
    show ?thesis
    proof (cases o1)
      case (Inl e1)
      with Pair Cons.prems have "e1 = e" by simp
      with Pair Inl show ?thesis
        by (intro exI[of _ "[]"] exI[of _ a] exI[of _ vus] exI[of _ r] exI[of _ lg]) simp
    next
      case (Inr r1)
      with Pair Cons.prems have "fst (processUpdates M t vus r1 lg1) = Inl e" by simp
      from Cons.IH[OF this] obtain pre vu post r' lg' where
        h: "vus = pre @ vu # post" "processUpdates M t pre r1 lg1 = (Inr r', lg')"
          "fst (processUpdate M t r' lg' vu) = Inl e"
          "processUpdates M t vus r1 lg1 = processUpdate M t r' lg' vu" by blast
      with Pair Inr show ?thesis
        by (intro exI[of _ "a # pre"] exI[of _ vu] exI[of _ post] exI[of _ r'] exI[of _ lg'])
           simp
    qed
  qed
qed

text \<open>
  A loop that succeeds has pushed one sub-range per verified update, has invoked the
  predicate of each, and every computed state is the object of the result.
\<close>

lemma processUpdates_success:
  "processUpdates M t vus r lg = (Inr r', lg') \<Longrightarrow>
     validRanges r' = validRanges r @ map (intersection t) vus
     \<and> lg' = lg @ vus
     \<and> (\<forall>vu\<in>set vus. isValidVerifiedStateUpdate M vu \<and> \<not> outsideRange t vu
           \<and> (\<exists>c. candidate M t vu = Some c \<and> stateUpdate_result r' = Some c
                 \<and> plasmaBlockNumber (heap M c) = addOne (verifiedBlockNumber vu)))
     \<and> (vus = [] \<longrightarrow> r' = r)
     \<and> (stateUpdate_result r \<noteq> None \<longrightarrow> stateUpdate_result r' = stateUpdate_result r)"
proof (induction vus arbitrary: r lg)
  case Nil
  then show ?case by simp
next
  case (Cons a vus)
  from Cons.prems obtain r1 lg1 where
    s1: "processUpdate M t r lg a = (Inr r1, lg1)" and
    s2: "processUpdates M t vus r1 lg1 = (Inr r', lg')"
    by (auto split: prod.splits sum.splits)
  from s1 have a: "isValidVerifiedStateUpdate M a" "\<not> outsideRange t a"
    and "\<exists>c. candidate M t a = Some c
          \<and> plasmaBlockNumber (heap M c) = addOne (verifiedBlockNumber a)
          \<and> r1 = \<lparr>stateUpdate_result = Some c,
                   validRanges = validRanges r @ [intersection t a]\<rparr>
          \<and> (stateUpdate_result r = None \<or> stateUpdate_result r = Some c)"
    and lg1: "lg1 = lg @ [a]"
    by (auto simp: processUpdate_cases split: if_splits option.splits)
  then obtain c where c: "candidate M t a = Some c"
     "plasmaBlockNumber (heap M c) = addOne (verifiedBlockNumber a)"
     "r1 = \<lparr>stateUpdate_result = Some c, validRanges = validRanges r @ [intersection t a]\<rparr>"
     "stateUpdate_result r = None \<or> stateUpdate_result r = Some c" by blast
  from Cons.IH[OF s2] have ih:
    "validRanges r' = validRanges r1 @ map (intersection t) vus" "lg' = lg1 @ vus"
    "\<forall>vu\<in>set vus. isValidVerifiedStateUpdate M vu \<and> \<not> outsideRange t vu
           \<and> (\<exists>c. candidate M t vu = Some c \<and> stateUpdate_result r' = Some c
                 \<and> plasmaBlockNumber (heap M c) = addOne (verifiedBlockNumber vu))"
    "stateUpdate_result r1 \<noteq> None \<longrightarrow> stateUpdate_result r' = stateUpdate_result r1"
    by blast+
  from ih(4) c(3) have r': "stateUpdate_result r' = Some c" by simp
  show ?case using a c ih r' lg1 by auto
qed

text \<open>A predicate is only ever invoked for a well-formed update inside the range.\<close>

lemma invoked_only_overlapping:
  "\<forall>w\<in>set lg. isValidVerifiedStateUpdate M w \<and> \<not> outsideRange t w \<Longrightarrow>
   \<forall>w\<in>set (snd (processUpdates M t vus r lg)).
      isValidVerifiedStateUpdate M w \<and> \<not> outsideRange t w"
proof (induction vus arbitrary: r lg)
  case Nil
  then show ?case by simp
next
  case (Cons a vus)
  show ?case
  proof (cases "processUpdate M t r lg a")
    case (Pair o1 lg1)
    have lg1: "\<forall>w\<in>set lg1. isValidVerifiedStateUpdate M w \<and> \<not> outsideRange t w"
      using Pair Cons.prems
      by (auto simp: processUpdate_cases split: if_splits option.splits)
    show ?thesis
    proof (cases o1)
      case (Inl e)
      with Pair lg1 show ?thesis by simp
    next
      case (Inr r1)
      with Pair Cons.IH[OF lg1, of r1] show ?thesis by simp
    qed
  qed
qed

lemma executeTransaction_cases:
  "executeTransaction M tx =
    (if \<not> isValidTransaction M tx then (Inl InvalidTransaction, [])
     else case getVerifiedStateUpdates M (start (range_tx tx)) (end' (range_tx tx)) of
        None \<Rightarrow> (Inl StateDBError, [])
      | Some vus \<Rightarrow>
          processUpdates M tx vus \<lparr>stateUpdate_result = None, validRanges = []\<rparr> [])"
  by (simp add: executeTransaction_def)

lemma executeTransaction_success:
  assumes "fst (executeTransaction M tx) = Inr res"
  shows "\<exists>vus. isValidTransaction M tx
     \<and> getVerifiedStateUpdates M (start (range_tx tx)) (end' (range_tx tx)) = Some vus
     \<and> processUpdates M tx vus \<lparr>stateUpdate_result = None, validRanges = []\<rparr> []
         = (Inr res, vus)"
proof -
  from assms have v: "isValidTransaction M tx"
    by (auto simp: executeTransaction_cases split: if_splits)
  with assms obtain vus where
    s: "getVerifiedStateUpdates M (start (range_tx tx)) (end' (range_tx tx)) = Some vus"
    by (auto simp: executeTransaction_cases split: option.splits)
  with v assms obtain lg where
    p: "processUpdates M tx vus \<lparr>stateUpdate_result = None, validRanges = []\<rparr> []
          = (Inr res, lg)"
    by (cases "processUpdates M tx vus \<lparr>stateUpdate_result = None, validRanges = []\<rparr> []")
       (auto simp: executeTransaction_cases)
  from processUpdates_success[OF p] have "lg = vus" by simp
  with v s p show ?thesis by blast
qed

text \<open>
  A failing call either failed before the loop, or at one verified update after a prefix
  that was processed without error.
\<close>

lemma executeTransaction_failure:
  assumes "fst (executeTransaction M tx) = Inl err"
  shows "executeTransaction M tx = (Inl err, []) \<and> err \<in> {InvalidTransaction, StateDBError}
    \<or> (\<exists>pre vu post r'. isValidTransaction M tx
         \<and> getVerifiedStateUpdates M (start (range_tx tx)) (end' (range_tx tx))
             = Some (pre @ vu # post)
         \<and> processUpdates M tx pre \<lparr>stateUpdate_result = None, validRanges = []\<rparr> []
             = (Inr r', pre)
         \<and> fst (processUpdate M tx r' pre vu) = Inl err
         \<and> executeTransaction M tx = processUpdate M tx r' pre vu)"
proof (cases "isValidTransaction M tx
      \<and> getVerifiedStateUpdates M (start (range_tx tx)) (end' (range_tx tx)) \<noteq> None")
  case False
  with assms show ?thesis by (auto simp: executeTransaction_cases)
next
  case True
  then obtain vus where
    s: "getVerifiedStateUpdates M (start (range_tx tx)) (end' (range_tx tx)) = Some vus" and
    e: "executeTransaction M tx
         = processUpdates M tx vus \<lparr>stateUpdate_result = None, validRanges = []\<rparr> []"
    by (auto simp: executeTransaction_cases)
  with assms have
    "fst (processUpdates M tx vus \<lparr>stateUpdate_result = None, validRanges = []\<rparr> []) = Inl err"
    by simp
  from processUpdates_error[OF this] obtain pre vu post r' lg' where
    h: "vus = pre @ vu # post"
       "processUpdates M tx pre \<lparr>stateUpdate_result = None, validRanges = []\<rparr> [] = (Inr r', lg')"
       "fst (processUpdate M tx r' lg' vu) = Inl err"
       "processUpdates M tx vus \<lparr>stateUpdate_result = None, validRanges = []\<rparr> []
          = processUpdate M tx r' lg' vu" by blast
  from processUpdates_success[OF h(2)] have "lg' = pre" by simp
  with True s e h show ?thesis by auto
qed

subsection \<open>Ranges\<close>

lemma overlap_iff_common_point:
  "overlap r q \<longleftrightarrow> {start r ..< end' r} \<inter> {start q ..< end' q} \<noteq> {}"
proof
  assume "overlap r q"
  then have "max (start r) (start q) \<in> {start r ..< end' r} \<inter> {start q ..< end' q}"
    by (auto simp: overlap_def)
  then show "{start r ..< end' r} \<inter> {start q ..< end' q} \<noteq> {}" by blast
next
  assume "{start r ..< end' r} \<inter> {start q ..< end' q} \<noteq> {}"
  then obtain x where "x \<in> {start r ..< end' r}" "x \<in> {start q ..< end' q}" by blast
  then show "overlap r q" by (auto simp: overlap_def)
qed

lemma overlap_intersection:
  "overlap (intersection t a) (intersection t b) \<Longrightarrow>
     overlap (range_update (stateUpdate a)) (range_update (stateUpdate b))"
  by (auto simp: overlap_def intersection_def)

lemma pairwiseDisjoint_intersection:
  "pairwiseDisjoint (map (\<lambda>vu. range_update (stateUpdate vu)) vus) \<Longrightarrow>
     pairwiseDisjoint (map (intersection t) vus)"
proof (induction vus)
  case Nil
  then show ?case by simp
next
  case (Cons a vus)
  then show ?case
    by (auto simp: list_all_iff dest: overlap_intersection)
qed

lemmas engine_example_defs = exampleUpdate_def exampleVerified_def exampleTransaction_def
  samePlugin_def freshPlugin_def exampleManager_def executeTransaction_def processUpdate_def
  addOne_def

subsection \<open>The empty answer of the store\<close>

text \<open>
  Claim C9. For every well-formed transaction for which the state store returns an empty
  sequence of verified updates, \<open>executeTransaction\<close> returns successfully, with
  \<open>stateUpdate\<close> undefined and \<open>validRanges\<close> the empty list (and no predicate is
  invoked).
\<close>

theorem empty_store_returns_empty_result:
  assumes "isValidTransaction M tx"
    and "getVerifiedStateUpdates M (start (range_tx tx)) (end' (range_tx tx)) = Some []"
  shows "executeTransaction M tx = (Inr \<lparr>stateUpdate_result = None, validRanges = []\<rparr>, [])"
  using assms by (simp add: executeTransaction_cases)

theorem empty_store_returns_empty_result_witness:
  "executeTransaction (exampleManager [] samePlugin 6) (exampleTransaction 10 50)
     = (Inr \<lparr>stateUpdate_result = None, validRanges = []\<rparr>, [])"
proof -
  have 1: "isValidTransaction (exampleManager [] samePlugin 6) (exampleTransaction 10 50)"
    by (simp add: exampleManager_def exampleTransaction_def)
  have 2: "getVerifiedStateUpdates (exampleManager [] samePlugin 6)
            (start (range_tx (exampleTransaction 10 50)))
            (end' (range_tx (exampleTransaction 10 50))) = Some []"
    by (simp add: exampleManager_def)
  from empty_store_returns_empty_result[OF 1 2] show ?thesis .
qed

subsection \<open>The valid ranges\<close>

text \<open>
  Claim C3, as the code has it. When \<open>executeTransaction\<close> returns successfully, the
  returned \<open>validRanges\<close> are, in the order of the store's answer, the ranges
  \<open>[max(tx.start, update.start), min(tx.end, update.end))\<close> of the verified updates, and
  each lies within the range of the transaction. Each is non-empty when the range of the
  transaction and the ranges of the updates are non-empty (\<open>start < end\<close>, which the
  well-formedness helpers are there to check). They are pairwise disjoint when the ranges
  of the verified updates that the store returned are pairwise disjoint: the engine does
  not check that itself.
\<close>

theorem validRanges_are_intersections:
  assumes "fst (executeTransaction M tx) = Inr res"
  shows "\<exists>vus. getVerifiedStateUpdates M (start (range_tx tx)) (end' (range_tx tx)) = Some vus
      \<and> validRanges res = map (intersection tx) vus
      \<and> (\<forall>r\<in>set (validRanges res).
            start (range_tx tx) \<le> start r \<and> end' r \<le> end' (range_tx tx))
      \<and> (start (range_tx tx) < end' (range_tx tx)
           \<and> (\<forall>vu\<in>set vus. start (range_update (stateUpdate vu))
                               < end' (range_update (stateUpdate vu)))
          \<longrightarrow> (\<forall>r\<in>set (validRanges res). start r < end' r))
      \<and> (pairwiseDisjoint (map (\<lambda>vu. range_update (stateUpdate vu)) vus)
          \<longrightarrow> pairwiseDisjoint (validRanges res))"
proof -
  from executeTransaction_success[OF assms] obtain vus where
    s: "getVerifiedStateUpdates M (start (range_tx tx)) (end' (range_tx tx)) = Some vus" and
    p: "processUpdates M tx vus \<lparr>stateUpdate_result = None, validRanges = []\<rparr> []
          = (Inr res, vus)"
    by blast
  from processUpdates_success[OF p] have
    vr: "validRanges res = map (intersection tx) vus" and
    ov: "\<forall>vu\<in>set vus. \<not> outsideRange tx vu" by auto
  have inside: "\<forall>r\<in>set (validRanges res).
      start (range_tx tx) \<le> start r \<and> end' r \<le> end' (range_tx tx)"
    by (auto simp: vr intersection_def)
  have nonempty: "\<forall>r\<in>set (validRanges res). start r < end' r"
    if "start (range_tx tx) < end' (range_tx tx)"
       "\<forall>vu\<in>set vus. start (range_update (stateUpdate vu))
                        < end' (range_update (stateUpdate vu))"
  proof
    fix r assume "r \<in> set (validRanges res)"
    then obtain vu where vu: "vu \<in> set vus" "r = intersection tx vu" by (auto simp: vr)
    with ov have "\<not> outsideRange tx vu" by blast
    with that vu show "start r < end' r"
      by (auto simp: intersection_def outsideRange_def)
  qed
  have disj: "pairwiseDisjoint (validRanges res)"
    if "pairwiseDisjoint (map (\<lambda>vu. range_update (stateUpdate vu)) vus)"
    using that by (simp add: vr pairwiseDisjoint_intersection)
  from s vr inside nonempty disj show ?thesis by blast
qed

text \<open>
  The scenario of the specification: the transaction \<open>[10, 50)\<close> over one verified update
  \<open>[0, 100)\<close> at block 5, whose predicate computes a state at block 6.
\<close>

theorem validRanges_are_intersections_witness:
  "fst (executeTransaction (exampleManager [exampleVerified 0 100 5] samePlugin 6)
          (exampleTransaction 10 50))
     = Inr \<lparr>stateUpdate_result = Some 1, validRanges = [\<lparr>start = 10, end' = 50\<rparr>]\<rparr>
   \<and> [\<lparr>start = 10, end' = 50\<rparr>]
       = map (intersection (exampleTransaction 10 50)) [exampleVerified 0 100 5]
   \<and> list_all (\<lambda>r. start r < end' r) [\<lparr>start = 10, end' = 50\<rparr>]
   \<and> pairwiseDisjoint [\<lparr>start = 10, end' = 50\<rparr>]"
proof -
  let ?M = "exampleManager [exampleVerified 0 100 5] samePlugin 6"
  let ?res = "\<lparr>stateUpdate_result = Some 1, validRanges = [\<lparr>start = 10, end' = 50\<rparr>]\<rparr>"
  have h: "fst (executeTransaction ?M (exampleTransaction 10 50)) = Inr ?res"
    by (simp add: engine_example_defs)
  from validRanges_are_intersections[OF h] obtain vus where
    v: "getVerifiedStateUpdates ?M (start (range_tx (exampleTransaction 10 50)))
          (end' (range_tx (exampleTransaction 10 50))) = Some vus"
       "validRanges ?res = map (intersection (exampleTransaction 10 50)) vus"
       "pairwiseDisjoint (map (\<lambda>vu. range_update (stateUpdate vu)) vus)
          \<longrightarrow> pairwiseDisjoint (validRanges ?res)"
    by blast
  from v(1) have vus: "vus = [exampleVerified 0 100 5]" by (simp add: exampleManager_def)
  from v(3) have "pairwiseDisjoint (validRanges ?res)" by (simp add: vus)
  with h v(2) show ?thesis
    by (simp add: vus intersection_def exampleTransaction_def exampleVerified_def
          exampleUpdate_def)
qed

text \<open>
  The claim as it is written asks for pairwise disjoint ranges on every successful
  return. A store that returns the same verified update twice gets the same sub-range
  twice.
\<close>

theorem overlapping_store_answer_counterexample:
  "fst (executeTransaction
          (exampleManager [exampleVerified 0 100 5, exampleVerified 0 100 5] samePlugin 6)
          (exampleTransaction 10 50))
     = Inr \<lparr>stateUpdate_result = Some 1,
            validRanges = [\<lparr>start = 10, end' = 50\<rparr>, \<lparr>start = 10, end' = 50\<rparr>]\<rparr>
   \<and> \<not> pairwiseDisjoint [\<lparr>start = 10, end' = 50\<rparr>, \<lparr>start = 10, end' = 50\<rparr>]"
  by (simp add: engine_example_defs overlap_def)

subsection \<open>The block number of a computed state\<close>

lemma addOne_safe: "- (2 ^ 53) < n \<Longrightarrow> n < 2 ^ 53 \<Longrightarrow> addOne n = n + 1"
  by (simp add: addOne_def)

text \<open>A loop that fails with BlockNumberMismatch has invoked one more predicate.\<close>

lemma blockNumberMismatch_extends_invoked:
  assumes "fst (processUpdates M t vus r lg) = Inl BlockNumberMismatch"
  shows "snd (processUpdates M t vus r lg) \<noteq> lg"
proof -
  from processUpdates_error[OF assms] obtain pre vu post r' lg' where
    h: "vus = pre @ vu # post" "processUpdates M t pre r lg = (Inr r', lg')"
       "fst (processUpdate M t r' lg' vu) = Inl BlockNumberMismatch"
       "processUpdates M t vus r lg = processUpdate M t r' lg' vu" by blast
  from processUpdates_success[OF h(2)] have "lg' = lg @ pre" by simp
  moreover from h(3) have "snd (processUpdate M t r' lg' vu) = lg' @ [vu]"
    by (auto simp: processUpdate_cases split: if_splits option.splits)
  ultimately show ?thesis using h(4) by simp
qed

text \<open>
  What the call as a whole does, for all block numbers: it fails with BlockNumberMismatch
  exactly when the computed state of one of the updates whose predicate it invoked has a
  block number other than the \<open>verifiedBlockNumber + 1\<close> that JavaScript computes.
\<close>

lemma blockNumberMismatch_call_iff:
  "fst (executeTransaction M tx) = Inl BlockNumberMismatch \<longleftrightarrow>
      (\<exists>vu\<in>set (snd (executeTransaction M tx)). \<exists>c. candidate M tx vu = Some c
          \<and> plasmaBlockNumber (heap M c) \<noteq> addOne (verifiedBlockNumber vu))"
proof (cases "fst (executeTransaction M tx)")
  case (Inr res)
  from executeTransaction_success[OF Inr] obtain vus where
    p: "processUpdates M tx vus \<lparr>stateUpdate_result = None, validRanges = []\<rparr> []
          = (Inr res, vus)"
    and e: "executeTransaction M tx = (Inr res, vus)"
    by (auto simp: executeTransaction_cases)
  from processUpdates_success[OF p] have
    "\<forall>vu\<in>set vus. \<exists>c. candidate M tx vu = Some c
        \<and> plasmaBlockNumber (heap M c) = addOne (verifiedBlockNumber vu)" by blast
  with e show ?thesis by fastforce
next
  case (Inl err)
  from executeTransaction_failure[OF Inl] consider
      (early) "executeTransaction M tx = (Inl err, [])"
        "err \<in> {InvalidTransaction, StateDBError}"
    | (step) pre vu r' where
        "processUpdates M tx pre \<lparr>stateUpdate_result = None, validRanges = []\<rparr> []
           = (Inr r', pre)"
        "executeTransaction M tx = processUpdate M tx r' pre vu"
    by blast
  then show ?thesis
  proof cases
    case early
    then show ?thesis by auto
  next
    case step
    note e' = step(2)
    from processUpdates_success[OF step(1)] have
      pre: "\<forall>vu\<in>set pre. \<exists>c. candidate M tx vu = Some c
        \<and> plasmaBlockNumber (heap M c) = addOne (verifiedBlockNumber vu)" by auto
    show ?thesis
    proof
      assume "fst (executeTransaction M tx) = Inl BlockNumberMismatch"
      with e' have "fst (processUpdate M tx r' pre vu) = Inl BlockNumberMismatch" by simp
      then have "\<exists>c. candidate M tx vu = Some c
          \<and> plasmaBlockNumber (heap M c) \<noteq> addOne (verifiedBlockNumber vu)"
        and "snd (processUpdate M tx r' pre vu) = pre @ [vu]"
        by (auto simp: processUpdate_cases split: if_splits option.splits)
      with e' show "\<exists>vu\<in>set (snd (executeTransaction M tx)). \<exists>c. candidate M tx vu = Some c
        \<and> plasmaBlockNumber (heap M c) \<noteq> addOne (verifiedBlockNumber vu)" by auto
    next
      assume "\<exists>vu\<in>set (snd (executeTransaction M tx)). \<exists>c. candidate M tx vu = Some c
        \<and> plasmaBlockNumber (heap M c) \<noteq> addOne (verifiedBlockNumber vu)"
      then obtain w c where w: "w \<in> set (snd (processUpdate M tx r' pre vu))"
        "candidate M tx w = Some c"
        "plasmaBlockNumber (heap M c) \<noteq> addOne (verifiedBlockNumber w)"
        using e' by auto
      from w(2,3) pre have "w \<notin> set pre" by auto
      moreover have "set (snd (processUpdate M tx r' pre vu)) \<subseteq> set pre \<union> {vu}"
        by (auto simp: processUpdate_cases split: if_splits option.splits)
      ultimately have wv: "w = vu" and "vu \<in> set (snd (processUpdate M tx r' pre vu))"
        using w(1) by auto
      then have "snd (processUpdate M tx r' pre vu) \<noteq> pre" using \<open>w \<notin> set pre\<close> by auto
      with w(2,3) wv have "fst (processUpdate M tx r' pre vu) = Inl BlockNumberMismatch"
        by (auto simp: processUpdate_cases split: if_splits option.splits)
      with e' show "fst (executeTransaction M tx) = Inl BlockNumberMismatch" by simp
    qed
  qed
qed

text \<open>
  Claim C4, as the code has it. Take a verified update that \<open>executeTransaction\<close>
  processes: the store returned it, the updates before it were processed without error,
  it is well-formed and inside the range, and its predicate returned a computed state.
  When its \<open>verifiedBlockNumber\<close> is below \<open>2^53\<close> in absolute value, so that JavaScript
  computes \<open>verifiedBlockNumber + 1\<close> exactly, the call fails with BlockNumberMismatch at
  that update (after the predicates of the updates up to it, and no other, were invoked)
  if and only if the block number of the computed state differs from
  \<open>verifiedBlockNumber + 1\<close>. A computed state at exactly \<open>verifiedBlockNumber + 1\<close> is
  accepted: the step goes on to the comparison with the state of the result, and pushes the
  sub-range of the update when that comparison passes.
\<close>

theorem blockNumber_check_at_update:
  assumes "isValidTransaction M tx"
    and "getVerifiedStateUpdates M (start (range_tx tx)) (end' (range_tx tx))
           = Some (pre @ vu # post)"
    and "fst (processUpdates M tx pre \<lparr>stateUpdate_result = None, validRanges = []\<rparr> [])
           = Inr res"
    and "isValidVerifiedStateUpdate M vu" and "\<not> outsideRange tx vu"
    and "candidate M tx vu = Some c"
    and "- (2 ^ 53) < verifiedBlockNumber vu" and "verifiedBlockNumber vu < 2 ^ 53"
  shows "(executeTransaction M tx = (Inl BlockNumberMismatch, pre @ [vu])
            \<longleftrightarrow> plasmaBlockNumber (heap M c) \<noteq> verifiedBlockNumber vu + 1)
       \<and> (plasmaBlockNumber (heap M c) = verifiedBlockNumber vu + 1
            \<longrightarrow> processUpdate M tx res pre vu =
                 (if stateUpdate_result res \<noteq> None \<and> stateUpdate_result res \<noteq> Some c
                  then Inl InconsistentTransition
                  else Inr \<lparr>stateUpdate_result = Some c,
                             validRanges = validRanges res @ [intersection tx vu]\<rparr>,
                  pre @ [vu]))"
proof -
  let ?r0 = "\<lparr>stateUpdate_result = None, validRanges = []\<rparr>"
  let ?next = "\<lparr>stateUpdate_result = Some c,
                 validRanges = validRanges res @ [intersection tx vu]\<rparr>"
  have e: "executeTransaction M tx = processUpdates M tx (pre @ vu # post) ?r0 []"
    using assms(1,2) by (simp add: executeTransaction_cases)
  obtain lg where p: "processUpdates M tx pre ?r0 [] = (Inr res, lg)"
    using assms(3) by (cases "processUpdates M tx pre ?r0 []") auto
  from processUpdates_success[OF p] have lg: "lg = pre" by simp
  have plus: "addOne (verifiedBlockNumber vu) = verifiedBlockNumber vu + 1"
    using assms(7,8) by (rule addOne_safe)
  have registered: "getPlugin M (predicate (stateObject (stateUpdate vu))) \<noteq> None"
    using assms(6) by (auto simp: candidate_def split: option.splits)
  have step: "processUpdate M tx res pre vu =
     (if plasmaBlockNumber (heap M c) \<noteq> verifiedBlockNumber vu + 1
        then (Inl BlockNumberMismatch, pre @ [vu])
      else if stateUpdate_result res \<noteq> None \<and> stateUpdate_result res \<noteq> Some c
        then (Inl InconsistentTransition, pre @ [vu])
      else (Inr ?next, pre @ [vu]))"
    using assms(4,5,6) registered by (auto simp: processUpdate_cases plus)
  have call: "executeTransaction M tx =
     (case processUpdate M tx res pre vu of
        (Inl err, lg') \<Rightarrow> (Inl err, lg')
      | (Inr r', lg') \<Rightarrow> processUpdates M tx post r' lg')"
    using e p lg by (simp add: processUpdates_append)
  have iff: "executeTransaction M tx = (Inl BlockNumberMismatch, pre @ [vu])
            \<longleftrightarrow> plasmaBlockNumber (heap M c) \<noteq> verifiedBlockNumber vu + 1"
  proof
    assume "plasmaBlockNumber (heap M c) \<noteq> verifiedBlockNumber vu + 1"
    then show "executeTransaction M tx = (Inl BlockNumberMismatch, pre @ [vu])"
      by (simp add: call step)
  next
    assume a: "executeTransaction M tx = (Inl BlockNumberMismatch, pre @ [vu])"
    show "plasmaBlockNumber (heap M c) \<noteq> verifiedBlockNumber vu + 1"
    proof
      assume m: "plasmaBlockNumber (heap M c) = verifiedBlockNumber vu + 1"
      show False
      proof (cases "stateUpdate_result res \<noteq> None \<and> stateUpdate_result res \<noteq> Some c")
        case True
        with m have "executeTransaction M tx = (Inl InconsistentTransition, pre @ [vu])"
          by (simp add: call step)
        with a show False by simp
      next
        case False
        with m have "executeTransaction M tx = processUpdates M tx post ?next (pre @ [vu])"
          by (auto simp: call step)
        with a have "fst (processUpdates M tx post ?next (pre @ [vu])) = Inl BlockNumberMismatch"
          and "snd (processUpdates M tx post ?next (pre @ [vu])) = pre @ [vu]" by simp_all
        with blockNumberMismatch_extends_invoked show False by blast
      qed
    qed
  qed
  have accepted: "processUpdate M tx res pre vu =
                 (if stateUpdate_result res \<noteq> None \<and> stateUpdate_result res \<noteq> Some c
                  then Inl InconsistentTransition else Inr ?next, pre @ [vu])"
    if "plasmaBlockNumber (heap M c) = verifiedBlockNumber vu + 1"
    using that by (simp add: step)
  from iff accepted show ?thesis by blast
qed

text \<open>
  The verified update \<open>[0, 100)\<close> at block 5: a computed state at block 7 makes the call
  fail at that update, a computed state at block 6 is accepted and its sub-range pushed.
\<close>

theorem blockNumber_check_at_update_witness:
  "executeTransaction (exampleManager [exampleVerified 0 100 5] samePlugin 7)
     (exampleTransaction 10 50) = (Inl BlockNumberMismatch, [exampleVerified 0 100 5])
   \<and> processUpdate (exampleManager [exampleVerified 0 100 5] samePlugin 6)
        (exampleTransaction 10 50) \<lparr>stateUpdate_result = None, validRanges = []\<rparr> []
        (exampleVerified 0 100 5)
      = (Inr \<lparr>stateUpdate_result = Some 1, validRanges = [\<lparr>start = 10, end' = 50\<rparr>]\<rparr>,
         [exampleVerified 0 100 5])"
proof -
  let ?tx = "exampleTransaction 10 50"
  let ?vu = "exampleVerified 0 100 5"
  let ?r0 = "\<lparr>stateUpdate_result = None, validRanges = []\<rparr>"
  have 1: "isValidTransaction (exampleManager [?vu] samePlugin b) ?tx" for b
    by (simp add: exampleManager_def exampleTransaction_def)
  have 2: "getVerifiedStateUpdates (exampleManager [?vu] samePlugin b)
             (start (range_tx ?tx)) (end' (range_tx ?tx)) = Some ([] @ ?vu # [])" for b
    by (simp add: exampleManager_def)
  have 3: "fst (processUpdates (exampleManager [?vu] samePlugin b) ?tx [] ?r0 []) = Inr ?r0" for b
    by simp
  have 4: "isValidVerifiedStateUpdate (exampleManager [?vu] samePlugin b) ?vu" for b
    by (simp add: engine_example_defs)
  have 5: "\<not> outsideRange ?tx ?vu"
    by (simp add: outsideRange_def engine_example_defs)
  have 6: "candidate (exampleManager [?vu] samePlugin b) ?tx ?vu = Some 1" for b
    by (simp add: engine_example_defs candidate_def)
  have 7: "- (2 ^ 53) < verifiedBlockNumber ?vu" "verifiedBlockNumber ?vu < 2 ^ 53"
    by (simp_all add: exampleVerified_def)
  have 8: "plasmaBlockNumber (heap (exampleManager [?vu] samePlugin 7) 1)
             \<noteq> verifiedBlockNumber ?vu + 1"
    "plasmaBlockNumber (heap (exampleManager [?vu] samePlugin 6) 1)
             = verifiedBlockNumber ?vu + 1"
    by (simp_all add: engine_example_defs)
  note t7 = blockNumber_check_at_update[OF 1 2 3 4 5 6 7, of 7]
  note t6 = blockNumber_check_at_update[OF 1 2 3 4 5 6 7, of 6]
  from t7[THEN conjunct1] 8(1) have
    a: "executeTransaction (exampleManager [?vu] samePlugin 7) ?tx
          = (Inl BlockNumberMismatch, [?vu])" by simp
  from t6[THEN conjunct2] 8(2) have
    "processUpdate (exampleManager [?vu] samePlugin 6) ?tx ?r0 [] ?vu
       = (Inr \<lparr>stateUpdate_result = Some 1,
                validRanges = validRanges ?r0 @ [intersection ?tx ?vu]\<rparr>, [] @ [?vu])"
    by simp
  then have
    b: "processUpdate (exampleManager [?vu] samePlugin 6) ?tx ?r0 [] ?vu
       = (Inr \<lparr>stateUpdate_result = Some 1, validRanges = [\<lparr>start = 10, end' = 50\<rparr>]\<rparr>, [?vu])"
    by (simp add: intersection_def exampleTransaction_def exampleVerified_def exampleUpdate_def)
  from a b show ?thesis by blast
qed

text \<open>
  The claim as it is written fails in two ways. At \<open>verifiedBlockNumber = 2^53\<close> the sum
  \<open>verifiedBlockNumber + 1\<close> is rounded back to \<open>2^53\<close>, so a computed state at block
  \<open>2^53\<close>, which is not \<open>verifiedBlockNumber + 1\<close>, is accepted. And a call over two
  verified updates fails with BlockNumberMismatch on account of the second, while the
  computed state of the first, which was processed, is at exactly its
  \<open>verifiedBlockNumber + 1\<close>.
\<close>

theorem blockNumber_counterexample:
  "plasmaBlockNumber (heap (exampleManager [exampleVerified 0 100 (2 ^ 53)] samePlugin (2 ^ 53)) 1)
     \<noteq> verifiedBlockNumber (exampleVerified 0 100 (2 ^ 53)) + 1
   \<and> fst (executeTransaction (exampleManager [exampleVerified 0 100 (2 ^ 53)] samePlugin (2 ^ 53))
          (exampleTransaction 10 50))
       = Inr \<lparr>stateUpdate_result = Some 1, validRanges = [\<lparr>start = 10, end' = 50\<rparr>]\<rparr>
   \<and> fst (executeTransaction
          (exampleManager [exampleVerified 0 30 5, exampleVerified 30 50 7] samePlugin 6)
          (exampleTransaction 0 50)) = Inl BlockNumberMismatch
   \<and> candidate (exampleManager [exampleVerified 0 30 5, exampleVerified 30 50 7] samePlugin 6)
        (exampleTransaction 0 50) (exampleVerified 0 30 5) = Some 1
   \<and> plasmaBlockNumber
        (heap (exampleManager [exampleVerified 0 30 5, exampleVerified 30 50 7] samePlugin 6) 1)
       = verifiedBlockNumber (exampleVerified 0 30 5) + 1"
  by (simp add: engine_example_defs candidate_def)

subsection \<open>Verified updates outside the range of the transaction\<close>

text \<open>
  Claim C5, as the code has it. When the store returns a verified update whose range does
  not overlap the range of the transaction (\<open>update.end \<le> tx.start\<close> or
  \<open>update.start \<ge> tx.end\<close>), \<open>executeTransaction\<close> never returns successfully, so the
  update is never silently omitted, and the predicate is not invoked for that update. The
  failure is RangeMismatch when the loop reaches the update, that is when the updates
  before it were processed without error and the update is well-formed; otherwise the call
  has already failed with the error of the earlier check.
\<close>

theorem nonoverlapping_update_never_omitted:
  assumes "isValidTransaction M tx"
    and "getVerifiedStateUpdates M (start (range_tx tx)) (end' (range_tx tx))
           = Some (pre @ vu # post)"
    and "outsideRange tx vu"
  shows "isl (fst (executeTransaction M tx))
       \<and> vu \<notin> set (snd (executeTransaction M tx))
       \<and> ((\<exists>res. fst (processUpdates M tx pre
                       \<lparr>stateUpdate_result = None, validRanges = []\<rparr> []) = Inr res)
            \<and> isValidVerifiedStateUpdate M vu
          \<longrightarrow> executeTransaction M tx = (Inl RangeMismatch, pre))"
proof -
  let ?r0 = "\<lparr>stateUpdate_result = None, validRanges = []\<rparr>"
  have e: "executeTransaction M tx = processUpdates M tx (pre @ vu # post) ?r0 []"
    using assms(1,2) by (simp add: executeTransaction_cases)
  have fails: "isl (fst (executeTransaction M tx))"
  proof (cases "fst (executeTransaction M tx)")
    case (Inl err)
    then show ?thesis by simp
  next
    case (Inr res)
    from executeTransaction_success[OF Inr] assms(2) have
      "processUpdates M tx (pre @ vu # post) ?r0 [] = (Inr res, pre @ vu # post)" by auto
    from processUpdates_success[OF this] have "\<not> outsideRange tx vu" by auto
    with assms(3) show ?thesis by simp
  qed
  have "\<forall>w\<in>set (snd (processUpdates M tx (pre @ vu # post) ?r0 [])).
          isValidVerifiedStateUpdate M w \<and> \<not> outsideRange tx w"
    by (rule invoked_only_overlapping) simp
  with e assms(3) have notinvoked: "vu \<notin> set (snd (executeTransaction M tx))" by auto
  have reached: "executeTransaction M tx = (Inl RangeMismatch, pre)"
    if p: "fst (processUpdates M tx pre ?r0 []) = Inr res"
      and v: "isValidVerifiedStateUpdate M vu" for res
  proof -
    obtain lg where p': "processUpdates M tx pre ?r0 [] = (Inr res, lg)"
      using p by (cases "processUpdates M tx pre ?r0 []") auto
    from processUpdates_success[OF p'] have "lg = pre" by simp
    with p' v assms(3) e show ?thesis
      by (simp add: processUpdates_append processUpdate_cases)
  qed
  from fails notinvoked reached show ?thesis by blast
qed

text \<open>
  The transaction \<open>[10, 50)\<close>, a store that returns \<open>[0, 100)\<close> and then the disjoint
  \<open>[60, 100)\<close>: the first update is processed, the second gives RangeMismatch.
\<close>

theorem nonoverlapping_update_never_omitted_witness:
  "executeTransaction
     (exampleManager [exampleVerified 0 100 5, exampleVerified 60 100 5] samePlugin 6)
     (exampleTransaction 10 50) = (Inl RangeMismatch, [exampleVerified 0 100 5])
   \<and> exampleVerified 60 100 5 \<notin> set (snd (executeTransaction
     (exampleManager [exampleVerified 0 100 5, exampleVerified 60 100 5] samePlugin 6)
     (exampleTransaction 10 50)))"
proof -
  let ?M = "exampleManager [exampleVerified 0 100 5, exampleVerified 60 100 5] samePlugin 6"
  let ?tx = "exampleTransaction 10 50"
  have 1: "isValidTransaction ?M ?tx"
    by (simp add: exampleManager_def exampleTransaction_def)
  have 2: "getVerifiedStateUpdates ?M (start (range_tx ?tx)) (end' (range_tx ?tx))
             = Some ([exampleVerified 0 100 5] @ exampleVerified 60 100 5 # [])"
    by (simp add: exampleManager_def)
  have 3: "outsideRange ?tx (exampleVerified 60 100 5)"
    by (simp add: outsideRange_def engine_example_defs)
  have 4: "\<exists>res. fst (processUpdates ?M ?tx [exampleVerified 0 100 5]
                       \<lparr>stateUpdate_result = None, validRanges = []\<rparr> []) = Inr res"
    by (simp add: engine_example_defs)
  have 5: "isValidVerifiedStateUpdate ?M (exampleVerified 60 100 5)"
    by (simp add: engine_example_defs)
  from nonoverlapping_update_never_omitted[OF 1 2 3] 4 5 show ?thesis by blast
qed

text \<open>
  The claim as it is written asks for RangeMismatch whenever the store returns an update
  outside the range. The call fails at the first failing check: here the store returns
  \<open>[0, 100)\<close>, whose predicate computes a state at the wrong block, before the disjoint
  \<open>[60, 100)\<close>, and the call fails with BlockNumberMismatch.
\<close>

theorem earlier_failure_counterexample:
  "getVerifiedStateUpdates
      (exampleManager [exampleVerified 0 100 5, exampleVerified 60 100 5] samePlugin 7) 10 50
     = Some [exampleVerified 0 100 5, exampleVerified 60 100 5]
   \<and> outsideRange (exampleTransaction 10 50) (exampleVerified 60 100 5)
   \<and> fst (executeTransaction
          (exampleManager [exampleVerified 0 100 5, exampleVerified 60 100 5] samePlugin 7)
          (exampleTransaction 10 50)) = Inl BlockNumberMismatch"
  by (simp add: engine_example_defs outsideRange_def)

subsection \<open>One resulting state\<close>

text \<open>
  What the comparison \<open>result.stateUpdate !== computedState\<close> decides: a call fails with
  InconsistentTransition exactly when two of the verified updates it processed got two
  different objects from their predicates (and the block number of the later one was
  right). The contents of the objects are not looked at.
\<close>

lemma inconsistentTransition_iff:
  "fst (executeTransaction M tx) = Inl InconsistentTransition \<longleftrightarrow>
     fst (executeTransaction M tx) \<noteq> Inl BlockNumberMismatch
     \<and> (\<exists>v\<in>set (snd (executeTransaction M tx)). \<exists>w\<in>set (snd (executeTransaction M tx)).
          \<exists>c d. candidate M tx v = Some c \<and> candidate M tx w = Some d \<and> c \<noteq> d)"
proof (cases "fst (executeTransaction M tx)")
  case (Inr res)
  from executeTransaction_success[OF Inr] obtain vus where
    p: "processUpdates M tx vus \<lparr>stateUpdate_result = None, validRanges = []\<rparr> []
          = (Inr res, vus)"
    and e: "executeTransaction M tx = (Inr res, vus)"
    by (auto simp: executeTransaction_cases)
  from processUpdates_success[OF p] have
    "\<forall>vu\<in>set vus. \<exists>c. candidate M tx vu = Some c \<and> stateUpdate_result res = Some c"
    by blast
  then have "\<not> (\<exists>v\<in>set vus. \<exists>w\<in>set vus.
          \<exists>c d. candidate M tx v = Some c \<and> candidate M tx w = Some d \<and> c \<noteq> d)"
    by (metis option.inject)
  with e show ?thesis by simp
next
  case (Inl err)
  from executeTransaction_failure[OF Inl] consider
      (early) "executeTransaction M tx = (Inl err, [])"
        "err \<in> {InvalidTransaction, StateDBError}"
    | (step) pre vu r' where
        "processUpdates M tx pre \<lparr>stateUpdate_result = None, validRanges = []\<rparr> []
           = (Inr r', pre)"
        "executeTransaction M tx = processUpdate M tx r' pre vu"
    by blast
  then show ?thesis
  proof cases
    case early
    then show ?thesis by auto
  next
    case step
    note e' = step(2)
    from processUpdates_success[OF step(1)] have
      pre: "\<forall>u\<in>set pre. \<exists>c. candidate M tx u = Some c \<and> stateUpdate_result r' = Some c"
      and nil: "pre = [] \<longrightarrow> stateUpdate_result r' = None" by auto
    show ?thesis
    proof
      assume a: "fst (executeTransaction M tx) = Inl InconsistentTransition"
      with e' have f: "fst (processUpdate M tx r' pre vu) = Inl InconsistentTransition"
        by simp
      then obtain d where d: "candidate M tx vu = Some d" "stateUpdate_result r' \<noteq> None"
        "stateUpdate_result r' \<noteq> Some d" "snd (processUpdate M tx r' pre vu) = pre @ [vu]"
        by (auto simp: processUpdate_cases split: if_splits option.splits)
      from d(2) nil obtain v where v: "v \<in> set pre" by (cases pre) auto
      with pre obtain c where c: "candidate M tx v = Some c" "stateUpdate_result r' = Some c"
        by blast
      from c(2) d(3) have "c \<noteq> d" by auto
      with v c(1) d(1,4) e' have
        "\<exists>v\<in>set (snd (executeTransaction M tx)). \<exists>w\<in>set (snd (executeTransaction M tx)).
          \<exists>c d. candidate M tx v = Some c \<and> candidate M tx w = Some d \<and> c \<noteq> d"
        by (intro bexI[of _ v] bexI[of _ vu]) auto
      with a show "fst (executeTransaction M tx) \<noteq> Inl BlockNumberMismatch
        \<and> (\<exists>v\<in>set (snd (executeTransaction M tx)). \<exists>w\<in>set (snd (executeTransaction M tx)).
          \<exists>c d. candidate M tx v = Some c \<and> candidate M tx w = Some d \<and> c \<noteq> d)" by simp
    next
      assume a: "fst (executeTransaction M tx) \<noteq> Inl BlockNumberMismatch
        \<and> (\<exists>v\<in>set (snd (executeTransaction M tx)). \<exists>w\<in>set (snd (executeTransaction M tx)).
          \<exists>c d. candidate M tx v = Some c \<and> candidate M tx w = Some d \<and> c \<noteq> d)"
      then obtain v w c d where vw: "v \<in> set (snd (processUpdate M tx r' pre vu))"
        "w \<in> set (snd (processUpdate M tx r' pre vu))"
        "candidate M tx v = Some c" "candidate M tx w = Some d" "c \<noteq> d"
        using e' by auto
      have sub: "set (snd (processUpdate M tx r' pre vu)) \<subseteq> set pre \<union> {vu}"
        by (auto simp: processUpdate_cases split: if_splits option.splits)
      from pre have agree: "\<forall>u\<in>set pre. candidate M tx u = stateUpdate_result r'"
        by auto
      have notboth: "\<not> (v \<in> set pre \<and> w \<in> set pre)"
      proof
        assume "v \<in> set pre \<and> w \<in> set pre"
        with agree have "candidate M tx v = candidate M tx w" by simp
        with vw(3,4,5) show False by simp
      qed
      with vw(1,2) sub have inv: "snd (processUpdate M tx r' pre vu) \<noteq> pre"
        and one: "v = vu \<and> w \<in> set pre \<or> w = vu \<and> v \<in> set pre \<or> v = vu \<and> w = vu"
        by auto
      from one have "\<exists>cv. candidate M tx vu = Some cv \<and> stateUpdate_result r' \<noteq> None
          \<and> stateUpdate_result r' \<noteq> Some cv"
      proof (elim disjE conjE)
        assume "v = vu" "w \<in> set pre"
        with agree vw(3,4,5) show ?thesis by auto
      next
        assume "w = vu" "v \<in> set pre"
        with agree vw(3,4,5) show ?thesis by auto
      next
        assume "v = vu" "w = vu"
        with vw(3,4,5) show ?thesis by simp
      qed
      then obtain cv where
        cv: "candidate M tx vu = Some cv" "stateUpdate_result r' \<noteq> None"
          "stateUpdate_result r' \<noteq> Some cv"
        by blast
      from a e' have "fst (processUpdate M tx r' pre vu) \<noteq> Inl BlockNumberMismatch" by simp
      with inv cv have "fst (processUpdate M tx r' pre vu) = Inl InconsistentTransition"
        by (auto simp: processUpdate_cases split: if_splits option.splits)
      with e' show "fst (executeTransaction M tx) = Inl InconsistentTransition" by simp
    qed
  qed
qed

text \<open>
  So two processed updates whose computed states differ in contents never lead to a
  successful return: the references differ as well.
\<close>

lemma different_contents_rejected:
  assumes "v \<in> set (snd (executeTransaction M tx))"
    and "w \<in> set (snd (executeTransaction M tx))"
    and "candidate M tx v = Some c" and "candidate M tx w = Some d"
    and "heap M c \<noteq> heap M d"
  shows "fst (executeTransaction M tx) = Inl InconsistentTransition
       \<or> fst (executeTransaction M tx) = Inl BlockNumberMismatch"
proof -
  from assms(5) have "c \<noteq> d" by auto
  with assms(1-4) have
    "\<exists>v\<in>set (snd (executeTransaction M tx)). \<exists>w\<in>set (snd (executeTransaction M tx)).
          \<exists>c d. candidate M tx v = Some c \<and> candidate M tx w = Some d \<and> c \<noteq> d"
    by blast
  with inconsistentTransition_iff[of M tx] show ?thesis by blast
qed

text \<open>
  Claim C1. The claim asks that \<open>executeTransaction\<close> fail with InconsistentTransition
  when two computed states are not value-identical, and not fail with it when all computed
  states are value-identical, even as distinct objects with equal contents. The source
  compares the objects with \<open>!==\<close> (and reports "two different states" when they are
  not the same object), so the second half does not hold: the transaction \<open>[0, 50)\<close> over
  the verified updates \<open>[0, 30)\<close> and \<open>[30, 50)\<close>, whose predicate returns the objects 1
  and 31 with the same contents, fails with InconsistentTransition.
\<close>

theorem equal_contents_rejected:
  "fst (executeTransaction
          (exampleManager [exampleVerified 0 30 5, exampleVerified 30 50 5] freshPlugin 6)
          (exampleTransaction 0 50)) = Inl InconsistentTransition
   \<and> candidate (exampleManager [exampleVerified 0 30 5, exampleVerified 30 50 5] freshPlugin 6)
        (exampleTransaction 0 50) (exampleVerified 0 30 5) = Some 1
   \<and> candidate (exampleManager [exampleVerified 0 30 5, exampleVerified 30 50 5] freshPlugin 6)
        (exampleTransaction 0 50) (exampleVerified 30 50 5) = Some 31
   \<and> heap (exampleManager [exampleVerified 0 30 5, exampleVerified 30 50 5] freshPlugin 6) 1
       = heap (exampleManager [exampleVerified 0 30 5, exampleVerified 30 50 5] freshPlugin 6) 31"
  by (simp add: engine_example_defs candidate_def)

section \<open>Properties of the execution bridge\<close>

subsection \<open>The packed calldata\<close>

lemma repeat_00: "concat (replicate n ''00'') = zeros n"
  by (induction n) (simp_all add: zeros_def)

lemma length_zeros [simp]: "length (zeros n) = 2 * n"
  by (simp add: zeros_def)

lemma getExecutionMgrTxData_layout:
  "getExecutionMgrTxData H e c =
     ''0x'' @ methodID H ''executeCall'' @ zeros 32 @ zeros 32 @ zeros 12 @ remove0x H e @ remove0x H c"
  by (simp add: getExecutionMgrTxData_def repeat_00)

lemma drop_prefix: "length xs = n \<Longrightarrow> drop n (xs @ ys) = ys"
  by simp

lemma zero_fields:
  "timestampField H (getExecutionMgrTxData H e c) = zeros 32
   \<and> queueOriginField H (getExecutionMgrTxData H e c) = zeros 32"
proof -
  let ?m = "methodID H ''executeCall''"
  let ?rest = "zeros 12 @ remove0x H e @ remove0x H c"
  have 1: "getExecutionMgrTxData H e c = (''0x'' @ ?m) @ zeros 32 @ zeros 32 @ ?rest"
    by (simp add: getExecutionMgrTxData_layout)
  have 2: "getExecutionMgrTxData H e c = (''0x'' @ ?m @ zeros 32) @ zeros 32 @ ?rest"
    by (simp add: getExecutionMgrTxData_layout)
  have "drop (2 + length ?m) (getExecutionMgrTxData H e c) = zeros 32 @ zeros 32 @ ?rest"
    unfolding 1 by (rule drop_prefix) simp
  then have t: "timestampField H (getExecutionMgrTxData H e c) = zeros 32"
    by (simp add: timestampField_def)
  have "drop (2 + length ?m + 64) (getExecutionMgrTxData H e c) = zeros 32 @ ?rest"
    unfolding 2 by (rule drop_prefix) simp
  then have "queueOriginField H (getExecutionMgrTxData H e c) = zeros 32"
    by (simp add: queueOriginField_def)
  with t show ?thesis by simp
qed

lemma zeroContext_packed: "zeroContext H (getExecutionMgrTxData H e c)"
  by (simp add: zeroContext_def zero_fields)

subsection \<open>The history of a call\<close>

lemma submissions_append: "submissions H (u @ v) = submissions H u @ submissions H v"
  by (induction H u rule: submissions.induct) simp_all

lemma persistedMappings_append:
  "persistedMappings (u @ v) = persistedMappings u @ persistedMappings v"
  by (induction u rule: persistedMappings.induct) simp_all

lemma send_history: "snd (send H w m p) = w @ [Sent m p (providerSend H w m p)]"
  by (simp add: send_def Let_def)

lemma call_events:
  "\<exists>evs. snd (call H w txObject blk) = w @ evs
     \<and> (\<forall>ev\<in>set evs. \<forall>d. forwardedCalldata ev = Some d \<longrightarrow> zeroContext H d)"
proof (cases "\<exists>e c. property txObject ''to'' = Some (Str e) \<and> property txObject ''data'' = Some (Str c)")
  case True
  then obtain e c where "property txObject ''to'' = Some (Str e)"
    "property txObject ''data'' = Some (Str c)" by blast
  then have "snd (call H w txObject blk)
     = w @ [Sent (Web3RpcMethods H Call)
              (Arr [internalCall H (getExecutionMgrTxData H e c), blk])
              (providerSend H w (Web3RpcMethods H Call)
                 (Arr [internalCall H (getExecutionMgrTxData H e c), blk]))]"
    by (simp add: call_def send_history)
  then show ?thesis by (simp add: internalCall_def zeroContext_packed)
next
  case False
  then have "snd (call H w txObject blk) = w @ []"
    by (auto simp: call_def split: option.splits Json.splits)
  then show ?thesis by (metis empty_iff list.set(1))
qed

lemma estimateGas_events:
  "\<exists>evs. snd (estimateGas H w txObject blk) = w @ evs
     \<and> (\<forall>ev\<in>set evs. \<forall>d. forwardedCalldata ev = Some d \<longrightarrow> zeroContext H d)"
proof (cases "\<exists>e c. property txObject ''to'' = Some (Str e) \<and> property txObject ''data'' = Some (Str c)")
  case True
  then obtain e c where "property txObject ''to'' = Some (Str e)"
    "property txObject ''data'' = Some (Str c)" by blast
  then have "snd (estimateGas H w txObject blk)
     = w @ [Sent (Web3RpcMethods H EstimateGas)
              (Arr [internalCall H (getExecutionMgrTxData H e c)])
              (providerSend H w (Web3RpcMethods H EstimateGas)
                 (Arr [internalCall H (getExecutionMgrTxData H e c)]))]"
    by (simp add: estimateGas_def send_history)
  then show ?thesis by (simp add: internalCall_def zeroContext_packed)
next
  case False
  then have "snd (estimateGas H w txObject blk) = w @ []"
    by (auto simp: estimateGas_def split: option.splits Json.splits)
  then show ?thesis by (metis empty_iff list.set(1))
qed

text \<open>What \<open>ovmTxToInternalTx\<close> does, case by case.\<close>

lemma ovmTxToInternalTx_signed:
  assumes "parseTransaction H raw = Some ovmTx" and "walletGetTransactionCount H w = Some n"
  shows "\<exists>itx. zeroContext H (data_internal itx)
     \<and> ovmTxToInternalTx H w raw =
        (case walletSign H (w @ [TransactionCount (Some n)]) itx of
           None \<Rightarrow> Inl SigningError | Some s \<Rightarrow> Inr s,
         w @ [TransactionCount (Some n),
              Signed itx (walletSign H (w @ [TransactionCount (Some n)]) itx)])"
proof -
  let ?itx = "\<lparr>nonce = n + 1, gasPrice = 0, gasLimit = gasLimit_ovm ovmTx,
      to_internal = address H, value_internal = 0,
      data_internal = getExecutionMgrTxData H
        (case to_ovm ovmTx of None \<Rightarrow> ZERO_ADDRESS H | Some a \<Rightarrow> a) (data_ovm ovmTx)\<rparr>"
  have "zeroContext H (data_internal ?itx)" by (simp add: zeroContext_packed)
  moreover have "ovmTxToInternalTx H w raw =
        (case walletSign H (w @ [TransactionCount (Some n)]) ?itx of
           None \<Rightarrow> Inl SigningError | Some s \<Rightarrow> Inr s,
         w @ [TransactionCount (Some n),
              Signed ?itx (walletSign H (w @ [TransactionCount (Some n)]) ?itx)])"
    using assms by (simp add: ovmTxToInternalTx_def Let_def split: option.splits)
  ultimately show ?thesis by blast
qed

lemma ovmTxToInternalTx_cases:
  assumes "ovmTxToInternalTx H w raw = (res, w1)"
  shows "(isl res \<and> w1 = w)
   \<or> (isl res \<and> w1 = w @ [TransactionCount None])
   \<or> (\<exists>n itx. isl res \<and> w1 = w @ [TransactionCount (Some n), Signed itx None]
         \<and> zeroContext H (data_internal itx))
   \<or> (\<exists>n itx signed. res = Inr signed
         \<and> w1 = w @ [TransactionCount (Some n), Signed itx (Some signed)]
         \<and> zeroContext H (data_internal itx))"
proof (cases "parseTransaction H raw")
  case None
  with assms show ?thesis by (auto simp: ovmTxToInternalTx_def)
next
  case (Some ovmTx)
  show ?thesis
  proof (cases "walletGetTransactionCount H w")
    case None
    with Some assms show ?thesis by (auto simp: ovmTxToInternalTx_def Let_def)
  next
    case (Some n)
    from ovmTxToInternalTx_signed[OF \<open>parseTransaction H raw = Some ovmTx\<close> Some]
    obtain itx where z: "zeroContext H (data_internal itx)" and
      e: "ovmTxToInternalTx H w raw =
        (case walletSign H (w @ [TransactionCount (Some n)]) itx of
           None \<Rightarrow> Inl SigningError | Some s \<Rightarrow> Inr s,
         w @ [TransactionCount (Some n),
              Signed itx (walletSign H (w @ [TransactionCount (Some n)]) itx)])" by blast
    show ?thesis
    proof (cases "walletSign H (w @ [TransactionCount (Some n)]) itx")
      case None
      with e assms have "isl res" "w1 = w @ [TransactionCount (Some n), Signed itx None]" by auto
      with z show ?thesis by blast
    next
      case (Some signed)
      with e assms have "res = Inr signed"
        "w1 = w @ [TransactionCount (Some n), Signed itx (Some signed)]" by auto
      with z show ?thesis by blast
    qed
  qed
qed

lemma ovmTxToInternalTx_Inr:
  assumes "ovmTxToInternalTx H w raw = (Inr signed, w1)"
  shows "\<exists>n itx. w1 = w @ [TransactionCount (Some n), Signed itx (Some signed)]
         \<and> zeroContext H (data_internal itx)"
  using ovmTxToInternalTx_cases[OF assms] by auto

lemma sendRawTransaction_after_mapping_failure:
  assumes "ovmTxToInternalTx H w raw = (Inr internalTx, w1)"
    and "\<not> mapOvmTransactionHashToInternalTransactionHash H w1
           (add0x H (keccak256 H raw)) (add0x H (keccak256 H internalTx))"
  shows "sendRawTransaction H w raw =
          (Inl MappingPersistError,
           w1 @ [MappedHash (add0x H (keccak256 H raw)) (add0x H (keccak256 H internalTx)) False])"
  using assms by (simp add: sendRawTransaction_def mapOvmTxHashToInternalTxHash_def Let_def)

lemma sendRawTransaction_events:
  "\<exists>evs. snd (sendRawTransaction H w raw) = w @ evs
     \<and> (\<forall>ev\<in>set evs. \<forall>d. forwardedCalldata ev = Some d \<longrightarrow> zeroContext H d)
     \<and> (\<forall>m p r. Sent m p r \<in> set evs \<longrightarrow> (\<exists>itx s. p = Str s \<and> Signed itx (Some s) \<in> set evs))"
proof (cases "ovmTxToInternalTx H w raw")
  case (Pair res w1)
  from ovmTxToInternalTx_cases[OF Pair] consider
      (a) "isl res" "w1 = w"
    | (b) "isl res" "w1 = w @ [TransactionCount None]"
    | (c) n itx where "isl res" "w1 = w @ [TransactionCount (Some n), Signed itx None]"
         "zeroContext H (data_internal itx)"
    | (d) n itx signed where "res = Inr signed"
         "w1 = w @ [TransactionCount (Some n), Signed itx (Some signed)]"
         "zeroContext H (data_internal itx)"
    by blast
  then show ?thesis
  proof cases
    case a
    then have "snd (sendRawTransaction H w raw) = w @ []"
      using Pair by (auto simp: sendRawTransaction_def isl_def)
    then show ?thesis by (metis empty_iff list.set(1))
  next
    case b
    then have "snd (sendRawTransaction H w raw) = w @ [TransactionCount None]"
      using Pair by (auto simp: sendRawTransaction_def isl_def)
    then show ?thesis by auto
  next
    case c
    then have "snd (sendRawTransaction H w raw) = w @ [TransactionCount (Some n), Signed itx None]"
      using Pair by (auto simp: sendRawTransaction_def isl_def)
    with c(3) show ?thesis by auto
  next
    case d
    let ?o = "add0x H (keccak256 H raw)" and ?i = "add0x H (keccak256 H signed)"
    show ?thesis
    proof (cases "mapOvmTransactionHashToInternalTransactionHash H w1 ?o ?i")
      case False
      with Pair d have "snd (sendRawTransaction H w raw)
          = w @ [TransactionCount (Some n), Signed itx (Some signed), MappedHash ?o ?i False]"
        by (simp add: sendRawTransaction_def mapOvmTxHashToInternalTxHash_def Let_def)
      with d(3) show ?thesis by auto
    next
      case True
      let ?w2 = "w1 @ [MappedHash ?o ?i True]"
      let ?resp = "providerSend H ?w2 (Web3RpcMethods H SendRawTransaction) (Str signed)"
      from True Pair d have "snd (sendRawTransaction H w raw)
          = w @ [TransactionCount (Some n), Signed itx (Some signed), MappedHash ?o ?i True,
                 Sent (Web3RpcMethods H SendRawTransaction) (Str signed) ?resp]"
        by (auto simp: sendRawTransaction_def mapOvmTxHashToInternalTxHash_def Let_def send_def
                 split: option.splits Json.splits)
      with d(3) show ?thesis by auto
    qed
  qed
qed

subsection \<open>Dispatch\<close>





text \<open>
  With the expected number of parameters a method is executed on them; a raw transaction
  given as an array of bytes is handled as the hexadecimal string of its bytes is.
\<close>

lemma handleRequest_full_arity:
  "(switchCase H m = Some Call \<longrightarrow> handleRequest H w m (Some [a, b]) = call H w a b)
   \<and> (switchCase H m = Some EstimateGas
      \<longrightarrow> handleRequest H w m (Some [a, b]) = estimateGas H w a b)
   \<and> (switchCase H m = Some GetCode \<longrightarrow> handleRequest H w m (Some [a, b]) = getCode H w a b)
   \<and> (switchCase H m = Some GetTransactionCount
      \<longrightarrow> handleRequest H w m (Some [a, b]) = getTransactionCount H w a b)
   \<and> (switchCase H m = Some GetTransactionReceipt
      \<longrightarrow> handleRequest H w m (Some [Str h]) = getTransactionReceipt H w h)
   \<and> (switchCase H m = Some SendRawTransaction
      \<longrightarrow> handleRequest H w m (Some [Str raw]) = sendRawTransaction H w raw)"
  by (simp add: handleRequest_def assertParameters_def at_def)

lemma handleRequest_sendRawTransaction_bytes:
  assumes "switchCase H m = Some SendRawTransaction" and "arrayify H (Arr bytes) = Some raw"
  shows "handleRequest H w m (Some [Arr bytes]) = sendRawTransaction H w raw"
  using assms by (simp add: handleRequest_def assertParameters_def at_def)

lemmas handler_example_defs = exampleHandler_def exampleNames_def strip0x_def prepend0x_def
  exampleAddress_def

subsection \<open>Packing and decoding\<close>

text \<open>
  Claim C6, as the code has it. For every entrypoint address (20 bytes, 40 hexadecimal
  digits after \<open>remove0x\<close>) and calldata, the packed calldata is the selector of
  \<open>executeCall\<close>, 32 zero bytes in the place of the timestamp, 32 zero bytes in the place
  of the queue origin, the rollup target address padded with zeros to 32 bytes, and the
  original calldata; decoding the packed form gives back the entrypoint, a zero timestamp,
  a zero queue origin and the calldata. The packing function has no timestamp and no queue
  origin among its inputs.
\<close>

theorem packed_calldata_roundtrip:
  assumes "length (methodID H ''executeCall'') = 8" and "length (remove0x H e) = 40"
  shows "getExecutionMgrTxData H e c =
           ''0x'' @ methodID H ''executeCall'' @ zeros 32 @ zeros 32 @ zeros 12
             @ remove0x H e @ remove0x H c
       \<and> decodeExecuteCall H (getExecutionMgrTxData H e c)
           = Some (remove0x H e, zeros 32, zeros 32, remove0x H c)"
  using assms
  by (simp add: getExecutionMgrTxData_layout decodeExecuteCall_def)

theorem packed_calldata_roundtrip_witness:
  "decodeExecuteCall (exampleHandler ''0x0'' True)
      (getExecutionMgrTxData (exampleHandler ''0x0'' True) exampleAddress ''0xabcd'')
     = Some (replicate 40 CHR ''a'', zeros 32, zeros 32, ''abcd'')"
proof -
  let ?H = "exampleHandler ''0x0'' True"
  have 1: "length (methodID ?H ''executeCall'') = 8"
    by (simp add: exampleHandler_def)
  have 2: "length (remove0x ?H exampleAddress) = 40"
    by (simp add: handler_example_defs)
  have 3: "remove0x ?H exampleAddress = replicate 40 CHR ''a''"
    "remove0x ?H ''0xabcd'' = ''abcd''"
    by (simp_all add: handler_example_defs)
  from packed_calldata_roundtrip[OF 1 2, of "''0xabcd''"] have
    "decodeExecuteCall ?H (getExecutionMgrTxData ?H exampleAddress ''0xabcd'')
       = Some (remove0x ?H exampleAddress, zeros 32, zeros 32, remove0x ?H ''0xabcd'')"
    by (rule conjunct2)
  then show ?thesis by (simp only: 3)
qed

text \<open>
  The claim as it is written quantifies over the timestamp and the queue origin. A
  timestamp that is not zero, such as the one the tests of the execution manager pass, is
  not what decoding the bridge's packed calldata gives.
\<close>

theorem timestamp_not_carried_counterexample:
  "decodeExecuteCall (exampleHandler ''0x0'' True)
      (getExecutionMgrTxData (exampleHandler ''0x0'' True) exampleAddress ''0x'')
     = Some (replicate 40 CHR ''a'', zeros 32, zeros 32, [])
   \<and> exampleTimestamp \<noteq> zeros 32"
proof -
  let ?H = "exampleHandler ''0x0'' True"
  have 1: "length (methodID ?H ''executeCall'') = 8"
    by (simp add: exampleHandler_def)
  have 2: "length (remove0x ?H exampleAddress) = 40"
    by (simp add: handler_example_defs)
  have 3: "remove0x ?H exampleAddress = replicate 40 CHR ''a''" "remove0x ?H ''0x'' = []"
    by (simp_all add: handler_example_defs)
  have "decodeExecuteCall ?H (getExecutionMgrTxData ?H exampleAddress ''0x'')
     = Some (remove0x ?H exampleAddress, zeros 32, zeros 32, remove0x ?H ''0x'')"
    using 1 2 by (simp add: getExecutionMgrTxData_layout decodeExecuteCall_def)
  moreover have "exampleTimestamp \<noteq> zeros 32"
  proof
    assume "exampleTimestamp = zeros 32"
    then have "exampleTimestamp ! 60 = zeros 32 ! 60" by simp
    then show False by (simp add: exampleTimestamp_def zeros_def nth_append)
  qed
  ultimately show ?thesis using 3 by simp
qed

text \<open>
  Claim C10. For every entrypoint and calldata, the packing function emits the timestamp
  field and the queue-origin field as zero bytes. Whatever the request, the calldata that
  \<open>call\<close> and \<open>estimateGas\<close> send to the execution manager, and the calldata of the
  internal transaction that \<open>sendRawTransaction\<close> signs, have a zero timestamp and a zero
  queue origin; what \<open>sendRawTransaction\<close> submits is that signed transaction.
\<close>

theorem forwarded_context_is_zero:
  "zeroContext H (getExecutionMgrTxData H e c)
   \<and> (\<exists>evs. snd (call H w txObject blk) = w @ evs
         \<and> (\<forall>ev\<in>set evs. \<forall>d. forwardedCalldata ev = Some d \<longrightarrow> zeroContext H d))
   \<and> (\<exists>evs. snd (estimateGas H w txObject blk) = w @ evs
         \<and> (\<forall>ev\<in>set evs. \<forall>d. forwardedCalldata ev = Some d \<longrightarrow> zeroContext H d))
   \<and> (\<exists>evs. snd (sendRawTransaction H w raw) = w @ evs
         \<and> (\<forall>ev\<in>set evs. \<forall>d. forwardedCalldata ev = Some d \<longrightarrow> zeroContext H d)
         \<and> (\<forall>m p r. Sent m p r \<in> set evs
               \<longrightarrow> (\<exists>itx s. p = Str s \<and> Signed itx (Some s) \<in> set evs)))"
  by (intro conjI zeroContext_packed call_events estimateGas_events sendRawTransaction_events)

text \<open>An \<open>eth_call\<close> to the example address: the one request it sends has a zero context.\<close>

theorem forwarded_context_is_zero_witness:
  "snd (call (exampleHandler ''0x0'' True) []
          (Obj [(''to'', Str exampleAddress), (''data'', Str ''0xabcd'')]) (Str ''latest''))
     = [Sent ''eth_call''
          (Arr [internalCall (exampleHandler ''0x0'' True)
                  (getExecutionMgrTxData (exampleHandler ''0x0'' True) exampleAddress ''0xabcd''),
                Str ''latest''])
          (Some (Str ''0x0''))]
   \<and> zeroContext (exampleHandler ''0x0'' True)
        (getExecutionMgrTxData (exampleHandler ''0x0'' True) exampleAddress ''0xabcd'')"
proof -
  let ?H = "exampleHandler ''0x0'' True"
  let ?tx = "Obj [(''to'', Str exampleAddress), (''data'', Str ''0xabcd'')]"
  let ?d = "getExecutionMgrTxData ?H exampleAddress ''0xabcd''"
  let ?ev = "Sent ''eth_call'' (Arr [internalCall ?H ?d, Str ''latest'']) (Some (Str ''0x0''))"
  have s: "snd (call ?H [] ?tx (Str ''latest'')) = [?ev]"
    by (simp add: call_def send_def Let_def exampleHandler_def exampleNames_def)
  from forwarded_context_is_zero[of ?H exampleAddress "''0xabcd''" "[]" ?tx "Str ''latest''"]
  obtain evs where evs: "snd (call ?H [] ?tx (Str ''latest'')) = [] @ evs"
    "\<forall>ev\<in>set evs. \<forall>d. forwardedCalldata ev = Some d \<longrightarrow> zeroContext ?H d"
    by blast
  have "evs = [?ev]" using evs(1)[symmetric] s by simp
  then have "?ev \<in> set evs" by simp
  moreover have "forwardedCalldata ?ev = Some ?d" by (simp add: internalCall_def)
  ultimately have "zeroContext ?H ?d" using evs(2) by blast
  with s show ?thesis by simp
qed

subsection \<open>sendRawTransaction\<close>

text \<open>
  Claim C7. When persisting the mapping (ovmTxHash to internalTxHash) fails,
  \<open>sendRawTransaction\<close> fails and nothing further is done: the history ends with the
  failed write, and the internal transaction is not submitted to the underlying ledger.
\<close>

theorem mapping_failure_stops_submission:
  assumes "ovmTxToInternalTx H w raw = (Inr internalTx, w1)"
    and "\<not> mapOvmTransactionHashToInternalTransactionHash H w1
           (add0x H (keccak256 H raw)) (add0x H (keccak256 H internalTx))"
  shows "sendRawTransaction H w raw =
          (Inl MappingPersistError,
           w1 @ [MappedHash (add0x H (keccak256 H raw)) (add0x H (keccak256 H internalTx)) False])
       \<and> submissions H (snd (sendRawTransaction H w raw)) = submissions H w
       \<and> (\<forall>m p r. Sent m p r \<notin> set (drop (length w) (snd (sendRawTransaction H w raw))))"
proof -
  from ovmTxToInternalTx_Inr[OF assms(1)] obtain n itx where
    w1: "w1 = w @ [TransactionCount (Some n), Signed itx (Some internalTx)]" by blast
  have r: "sendRawTransaction H w raw =
          (Inl MappingPersistError,
           w1 @ [MappedHash (add0x H (keccak256 H raw)) (add0x H (keccak256 H internalTx)) False])"
    by (rule sendRawTransaction_after_mapping_failure[OF assms])
  show ?thesis unfolding r by (simp add: w1 submissions_append)
qed

theorem mapping_failure_stops_submission_witness:
  "fst (sendRawTransaction (exampleHandler ''0x0'' False) [] ''f86b'') = Inl MappingPersistError
   \<and> submissions (exampleHandler ''0x0'' False)
        (snd (sendRawTransaction (exampleHandler ''0x0'' False) [] ''f86b'')) = []"
proof -
  let ?H = "exampleHandler ''0x0'' False"
  obtain internalTx w1 where 1: "ovmTxToInternalTx ?H [] ''f86b'' = (Inr internalTx, w1)"
    by (simp add: ovmTxToInternalTx_def Let_def exampleHandler_def)
  have 2: "\<not> mapOvmTransactionHashToInternalTransactionHash ?H w1
           (add0x ?H (keccak256 ?H ''f86b'')) (add0x ?H (keccak256 ?H internalTx))"
    by (simp add: exampleHandler_def)
  note t = mapping_failure_stops_submission[OF 1 2]
  from t[THEN conjunct1] have
    a: "fst (sendRawTransaction ?H [] ''f86b'') = Inl MappingPersistError" by simp
  from t[THEN conjunct2, THEN conjunct1] have
    b: "submissions ?H (snd (sendRawTransaction ?H [] ''f86b'')) = []" by simp
  from a b show ?thesis by blast
qed

text \<open>
  Claim C2, as the code has it. When the mapping was written and the underlying ledger
  answers the submission with a hash: if that hash differs from the locally computed
  internal hash (both compared after \<open>remove0x\<close>) the call fails with HashMismatch, and if
  they are equal the call returns the rollup (OVM) transaction hash. In both cases the pair
  (ovmTxHash, locally computed internalTxHash) written before the submission is what the
  call leaves in the mapping table: a mismatch does not remove it, and no pair with the
  hash that the ledger returned is written.
\<close>

theorem hash_comparison_after_submission:
  assumes "ovmTxToInternalTx H w raw = (Inr internalTx, w1)"
    and "mapOvmTransactionHashToInternalTransactionHash H w1
           (add0x H (keccak256 H raw)) (add0x H (keccak256 H internalTx))"
    and "providerSend H
           (w1 @ [MappedHash (add0x H (keccak256 H raw)) (add0x H (keccak256 H internalTx)) True])
           (Web3RpcMethods H SendRawTransaction) (Str internalTx) = Some (Str returned)"
  shows "(remove0x H (keccak256 H internalTx) \<noteq> remove0x H returned
            \<longrightarrow> fst (sendRawTransaction H w raw) = Inl HashMismatch)
       \<and> (remove0x H (keccak256 H internalTx) = remove0x H returned
            \<longrightarrow> fst (sendRawTransaction H w raw) = Inr (Str (keccak256 H raw)))
       \<and> persistedMappings (snd (sendRawTransaction H w raw))
           = persistedMappings w @ [(add0x H (keccak256 H raw), add0x H (keccak256 H internalTx))]"
proof -
  from ovmTxToInternalTx_Inr[OF assms(1)] obtain n itx where
    w1: "w1 = w @ [TransactionCount (Some n), Signed itx (Some internalTx)]" by blast
  let ?w2 = "w1 @ [MappedHash (add0x H (keccak256 H raw)) (add0x H (keccak256 H internalTx)) True]"
  let ?w3 = "?w2 @ [Sent (Web3RpcMethods H SendRawTransaction) (Str internalTx)
                      (Some (Str returned))]"
  have r: "sendRawTransaction H w raw =
     (if remove0x H (keccak256 H internalTx) \<noteq> remove0x H returned then Inl HashMismatch
      else Inr (Str (keccak256 H raw)), ?w3)"
    using assms
    by (simp add: sendRawTransaction_def mapOvmTxHashToInternalTxHash_def send_def Let_def)
  show ?thesis unfolding r by (simp add: w1 persistedMappings_append)
qed

text \<open>
  A ledger that returns the computed hash, written without \<open>0x\<close>: the call returns the
  rollup hash.
\<close>

theorem hash_comparison_after_submission_witness:
  "fst (sendRawTransaction (exampleHandler ''f91f2e3d'' True) [] ''f86b'') = Inr (Str ''0xf86b'')
   \<and> persistedMappings (snd (sendRawTransaction (exampleHandler ''f91f2e3d'' True) [] ''f86b''))
       = [(''0xf86b'', ''0xf91f2e3d'')]"
proof -
  let ?H = "exampleHandler ''f91f2e3d'' True"
  obtain internalTx w1 where 1: "ovmTxToInternalTx ?H [] ''f86b'' = (Inr internalTx, w1)"
    and k: "keccak256 ?H internalTx = ''0xf91f2e3d''"
    by (simp add: ovmTxToInternalTx_def Let_def exampleHandler_def getExecutionMgrTxData_layout)
  have 2: "mapOvmTransactionHashToInternalTransactionHash ?H w1
           (add0x ?H (keccak256 ?H ''f86b'')) (add0x ?H (keccak256 ?H internalTx))"
    by (simp add: exampleHandler_def)
  have 3: "providerSend ?H
           (w1 @ [MappedHash (add0x ?H (keccak256 ?H ''f86b''))
                    (add0x ?H (keccak256 ?H internalTx)) True])
           (Web3RpcMethods ?H SendRawTransaction) (Str internalTx) = Some (Str ''f91f2e3d'')"
    by (simp add: exampleHandler_def exampleNames_def)
  have 4: "remove0x ?H (keccak256 ?H internalTx) = remove0x ?H ''f91f2e3d''"
    unfolding k by (simp add: exampleHandler_def strip0x_def)
  have 5: "keccak256 ?H ''f86b'' = ''0xf86b''" "add0x ?H ''0xf86b'' = ''0xf86b''"
    "add0x ?H ''0xf91f2e3d'' = ''0xf91f2e3d''"
    by (simp_all add: exampleHandler_def prepend0x_def)
  note t = hash_comparison_after_submission[OF 1 2 3]
  from t[THEN conjunct2, THEN conjunct1] 4 have
    a: "fst (sendRawTransaction ?H [] ''f86b'') = Inr (Str ''0xf86b'')" by (simp add: 5)
  from t[THEN conjunct2, THEN conjunct2] have
    b: "persistedMappings (snd (sendRawTransaction ?H [] ''f86b''))
          = [(''0xf86b'', ''0xf91f2e3d'')]" by (simp add: k 5)
  from a b show ?thesis by blast
qed

text \<open>
  The claim as it is written asks that after a HashMismatch no mapping be left for the
  pair of hashes. The mapping of the rollup hash to the computed internal hash was written
  before the submission, and it is still in the table after the failure.
\<close>

theorem mapping_left_after_hash_mismatch:
  "fst (sendRawTransaction (exampleHandler ''0x1234'' True) [] ''f86b'') = Inl HashMismatch
   \<and> persistedMappings (snd (sendRawTransaction (exampleHandler ''0x1234'' True) [] ''f86b''))
       = [(''0xf86b'', ''0xf91f2e3d'')]"
  by (simp add: sendRawTransaction_def ovmTxToInternalTx_def mapOvmTxHashToInternalTxHash_def
        send_def Let_def handler_example_defs getExecutionMgrTxData_layout)

subsection \<open>handleRequest\<close>




end
